theory Spec2Isabelle
  imports Complex_Main "HOL-Library.Char_ord" "HOL-Library.List_Lexorder" "HOL-Library.AList"
begin

section \<open>Configuration (config/app_config.py)\<close>

text \<open>
  A Python \<open>str\<close> is modelled as a \<open>string\<close>, one \<open>char\<close> per code point, so the strings of
  the model are those over the code points 0 to 255. The character tables below (white space,
  letters and digits, case mapping) are Python's for that range.
\<close>

definition MAX_HISTORY_LENGTH :: nat where
  "MAX_HISTORY_LENGTH = 20"

definition MAX_CHATS :: nat where
  "MAX_CHATS = 50"

datatype language = En | Ru

text \<open>The Russian default text is kept as an opaque ASCII stand-in; no claim reads its letters.\<close>

definition DEFAULT_SYSTEM_MESSAGE :: "language \<Rightarrow> string" where
  "DEFAULT_SYSTEM_MESSAGE lang =
     (case lang of En \<Rightarrow> ''You are a helpful AI assistant.''
                 | Ru \<Rightarrow> ''(ru) default system message'')"

section \<open>Messages and the history trimmer (utils/message_handler.py)\<close>

record message =
  role :: string
  content :: string

text \<open>
  Python's \<open>xs[-k:]\<close> for a non-negative \<open>k\<close>: \<open>-0\<close> is \<open>0\<close>, so \<open>xs[-0:]\<close> is the whole
  list; otherwise the slice starts at \<open>max (len xs - k) 0\<close>.
\<close>

definition slice_from_neg :: "nat \<Rightarrow> 'a list \<Rightarrow> 'a list" where
  "slice_from_neg k xs = (if k = 0 then xs else drop (length xs - k) xs)"

definition trim_message_history :: "message list \<Rightarrow> message list" where
  "trim_message_history messages =
     (let system_message = [msg \<leftarrow> messages. role msg = ''system''];
          other_messages = [msg \<leftarrow> messages. role msg \<noteq> ''system'']
      in system_message @ slice_from_neg MAX_HISTORY_LENGTH other_messages)"

text \<open>
  The specification's wording of the trimmer, for comparison with the code: the last \<open>n\<close>
  elements of a list are the first \<open>n\<close> of its reversal, read backwards.
\<close>

definition last_n :: "nat \<Rightarrow> 'a list \<Rightarrow> 'a list" where
  "last_n n xs = rev (take n (rev xs))"

definition spec_trim :: "message list \<Rightarrow> message list" where
  "spec_trim m = filter (\<lambda>x. role x = ''system'') m
                 @ last_n MAX_HISTORY_LENGTH (filter (\<lambda>x. role x \<noteq> ''system'') m)"

section \<open>Properties of the history trimmer\<close>

lemma slice_from_neg_last_n:
  "0 < k \<Longrightarrow> slice_from_neg k xs = last_n k xs"
  by (simp add: slice_from_neg_def last_n_def take_rev)

lemma trim_system_part:
  "filter (\<lambda>x. role x = ''system'') (trim_message_history m) = filter (\<lambda>x. role x = ''system'') m"
proof -
  have "filter (\<lambda>x. role x = ''system'') (slice_from_neg k (filter (\<lambda>x. role x \<noteq> ''system'') m)) = []" for k
    by (auto simp: slice_from_neg_def filter_empty_conv dest: in_set_dropD)
  then show ?thesis
    by (simp add: trim_message_history_def)
qed

lemma trim_other_part:
  "filter (\<lambda>x. role x \<noteq> ''system'') (trim_message_history m)
     = slice_from_neg MAX_HISTORY_LENGTH (filter (\<lambda>x. role x \<noteq> ''system'') m)"
proof -
  have "filter (\<lambda>x. role x \<noteq> ''system'') (slice_from_neg k (filter (\<lambda>x. role x \<noteq> ''system'') m))
          = slice_from_neg k (filter (\<lambda>x. role x \<noteq> ''system'') m)" for k
    by (auto simp: slice_from_neg_def filter_id_conv dest: in_set_dropD)
  then show ?thesis
    by (simp add: trim_message_history_def)
qed

lemma slice_from_neg_idem:
  "slice_from_neg k (slice_from_neg k xs) = slice_from_neg k xs"
  by (simp add: slice_from_neg_def)

text \<open>
  C2: the trimmed list is the system messages of the input, all of them and in order, followed
  by the last \<open>MAX_HISTORY_LENGTH\<close> other messages in order; so at most \<open>MAX_HISTORY_LENGTH\<close>
  non-system messages remain and the system messages are those of the input.
\<close>

theorem trim_message_history_spec:
  "trim_message_history m = spec_trim m
   \<and> length (filter (\<lambda>x. role x \<noteq> ''system'') (trim_message_history m)) \<le> MAX_HISTORY_LENGTH
   \<and> filter (\<lambda>x. role x = ''system'') (trim_message_history m) = filter (\<lambda>x. role x = ''system'') m"
proof -
  have pos: "0 < MAX_HISTORY_LENGTH"
    by (simp add: MAX_HISTORY_LENGTH_def)
  have eq: "trim_message_history m = spec_trim m"
    by (simp add: trim_message_history_def spec_trim_def slice_from_neg_last_n [OF pos])
  have "length (slice_from_neg MAX_HISTORY_LENGTH (filter (\<lambda>x. role x \<noteq> ''system'') m)) \<le> MAX_HISTORY_LENGTH"
    by (simp add: slice_from_neg_last_n [OF pos] last_n_def)
  then have bound: "length (filter (\<lambda>x. role x \<noteq> ''system'') (trim_message_history m)) \<le> MAX_HISTORY_LENGTH"
    by (simp add: trim_other_part)
  from eq bound trim_system_part show ?thesis
    by blast
qed

text \<open>
  C10: trimming is idempotent, so trimming after every append leaves an already trimmed
  conversation as it is.
\<close>

theorem trim_message_history_idempotent:
  "trim_message_history (trim_message_history m) = trim_message_history m"
proof -
  have "trim_message_history (trim_message_history m)
          = filter (\<lambda>x. role x = ''system'') (trim_message_history m)
            @ slice_from_neg MAX_HISTORY_LENGTH (filter (\<lambda>x. role x \<noteq> ''system'') (trim_message_history m))"
    by (simp add: trim_message_history_def [of "trim_message_history m"])
  also have "\<dots> = filter (\<lambda>x. role x = ''system'') m
            @ slice_from_neg MAX_HISTORY_LENGTH (filter (\<lambda>x. role x \<noteq> ''system'') m)"
    by (simp only: trim_system_part trim_other_part slice_from_neg_idem)
  also have "\<dots> = trim_message_history m"
    by (simp add: trim_message_history_def)
  finally show ?thesis .
qed

section \<open>Python string operations used by the code\<close>

definition ascii_lowercase :: string where
  "ascii_lowercase = ''abcdefghijklmnopqrstuvwxyz''"

definition ascii_uppercase :: string where
  "ascii_uppercase = ''ABCDEFGHIJKLMNOPQRSTUVWXYZ''"

definition digits :: string where
  "digits = ''0123456789''"

text \<open>
  The code points up to 255 for which \<open>str.isspace\<close> holds, which are those \<open>str.strip()\<close>
  removes: TAB, LF, VT, FF, CR, FS, GS, RS, US, SPACE, NEL (U+0085) and NO-BREAK SPACE (U+00A0).
\<close>

definition whitespace :: string where
  "whitespace = [CHR 0x09, CHR 0x0A, CHR 0x0B, CHR 0x0C, CHR 0x0D,
                 CHR 0x1C, CHR 0x1D, CHR 0x1E, CHR 0x1F, CHR 0x20,
                 CHR 0x85, CHR 0xA0]"

definition isspace :: "char \<Rightarrow> bool" where
  "isspace c = (c \<in> set whitespace)"

text \<open>
  The code points from 128 to 255 for which \<open>str.isalnum\<close> holds: the ordinal indicators, the
  superscript digits, the micro sign, the vulgar fractions and the Latin-1 letters.
\<close>

definition latin1_alnum :: string where
  "latin1_alnum =
     [CHR 0xAA, CHR 0xB2, CHR 0xB3, CHR 0xB5, CHR 0xB9, CHR 0xBA, CHR 0xBC, CHR 0xBD,
     CHR 0xBE, CHR 0xC0, CHR 0xC1, CHR 0xC2, CHR 0xC3, CHR 0xC4, CHR 0xC5, CHR 0xC6,
     CHR 0xC7, CHR 0xC8, CHR 0xC9, CHR 0xCA, CHR 0xCB, CHR 0xCC, CHR 0xCD, CHR 0xCE,
     CHR 0xCF, CHR 0xD0, CHR 0xD1, CHR 0xD2, CHR 0xD3, CHR 0xD4, CHR 0xD5, CHR 0xD6,
     CHR 0xD8, CHR 0xD9, CHR 0xDA, CHR 0xDB, CHR 0xDC, CHR 0xDD, CHR 0xDE, CHR 0xDF,
     CHR 0xE0, CHR 0xE1, CHR 0xE2, CHR 0xE3, CHR 0xE4, CHR 0xE5, CHR 0xE6, CHR 0xE7,
     CHR 0xE8, CHR 0xE9, CHR 0xEA, CHR 0xEB, CHR 0xEC, CHR 0xED, CHR 0xEE, CHR 0xEF,
     CHR 0xF0, CHR 0xF1, CHR 0xF2, CHR 0xF3, CHR 0xF4, CHR 0xF5, CHR 0xF6, CHR 0xF8,
     CHR 0xF9, CHR 0xFA, CHR 0xFB, CHR 0xFC, CHR 0xFD, CHR 0xFE, CHR 0xFF]"

definition isalnum :: "char \<Rightarrow> bool" where
  "isalnum c = (c \<in> set (ascii_lowercase @ ascii_uppercase @ digits @ latin1_alnum))"

text \<open>
  The Latin-1 letters that have their other case within the range, lower case and upper case in
  the same order. The upper-case forms of the micro sign (U+00B5) and of y with diaeresis
  (U+00FF) lie beyond code point 255; \<open>upper\<close> leaves these two as they are.
\<close>

definition latin1_lowercase :: string where
  "latin1_lowercase =
     [CHR 0xE0, CHR 0xE1, CHR 0xE2, CHR 0xE3, CHR 0xE4, CHR 0xE5, CHR 0xE6, CHR 0xE7,
     CHR 0xE8, CHR 0xE9, CHR 0xEA, CHR 0xEB, CHR 0xEC, CHR 0xED, CHR 0xEE, CHR 0xEF,
     CHR 0xF0, CHR 0xF1, CHR 0xF2, CHR 0xF3, CHR 0xF4, CHR 0xF5, CHR 0xF6, CHR 0xF8,
     CHR 0xF9, CHR 0xFA, CHR 0xFB, CHR 0xFC, CHR 0xFD, CHR 0xFE]"

definition latin1_uppercase :: string where
  "latin1_uppercase =
     [CHR 0xC0, CHR 0xC1, CHR 0xC2, CHR 0xC3, CHR 0xC4, CHR 0xC5, CHR 0xC6, CHR 0xC7,
     CHR 0xC8, CHR 0xC9, CHR 0xCA, CHR 0xCB, CHR 0xCC, CHR 0xCD, CHR 0xCE, CHR 0xCF,
     CHR 0xD0, CHR 0xD1, CHR 0xD2, CHR 0xD3, CHR 0xD4, CHR 0xD5, CHR 0xD6, CHR 0xD8,
     CHR 0xD9, CHR 0xDA, CHR 0xDB, CHR 0xDC, CHR 0xDD, CHR 0xDE]"

definition upper :: "char \<Rightarrow> char" where
  "upper c =
     (case map_of (zip (ascii_lowercase @ latin1_lowercase) (ascii_uppercase @ latin1_uppercase)) c of
        Some u \<Rightarrow> u
      | None \<Rightarrow> c)"

definition lower :: "char \<Rightarrow> char" where
  "lower c =
     (case map_of (zip (ascii_uppercase @ latin1_uppercase) (ascii_lowercase @ latin1_lowercase)) c of
        Some l \<Rightarrow> l
      | None \<Rightarrow> c)"

text \<open>
  \<open>str.capitalize()\<close>: the first character in title case, the rest in lower case. Title case
  is upper case but for the sharp s (U+00DF), whose title case is \<open>Ss\<close>.
\<close>

definition capitalize :: "string \<Rightarrow> string" where
  "capitalize s =
     (case s of
        [] \<Rightarrow> []
      | c # cs \<Rightarrow> (if c = CHR 0xDF then ''Ss'' else [upper c]) @ map lower cs)"

text \<open>\<open>str.strip()\<close>: leading and trailing white space removed.\<close>

definition strip :: "string \<Rightarrow> string" where
  "strip s = rev (dropWhile isspace (rev (dropWhile isspace s)))"

text \<open>\<open>sep.join(xs)\<close>.\<close>

fun join :: "string \<Rightarrow> string list \<Rightarrow> string" where
  "join sep [] = []"
| "join sep [x] = x"
| "join sep (x # y # ys) = x @ sep @ join sep (y # ys)"

definition NL :: string where
  "NL = [CHR 0x0A]"

lemmas char_tables = ascii_lowercase_def ascii_uppercase_def digits_def whitespace_def
  latin1_alnum_def latin1_lowercase_def latin1_uppercase_def

lemma all_dropWhile_iff:
  "(\<forall>x\<in>set (dropWhile P xs). P x) \<longleftrightarrow> (\<forall>x\<in>set xs. P x)"
  by (induction xs) auto

lemma strip_empty_iff:
  "strip s = [] \<longleftrightarrow> (\<forall>c\<in>set s. isspace c)"
  by (simp add: strip_def dropWhile_eq_Nil_conv all_dropWhile_iff)

lemma join_snoc:
  "xs \<noteq> [] \<Longrightarrow> join sep (xs @ [y]) = join sep xs @ sep @ y"
  by (induction sep xs rule: join.induct) auto

lemma capitalize_user:
  "capitalize ''user'' = ''User''"
  by (simp add: capitalize_def upper_def lower_def char_tables)

section \<open>Prompt assembly (get_model_response, and ApiClient.get_response alike)\<close>

text \<open>The f-string \<open>f"{msg['role'].capitalize()}: {msg['content']}"\<close>.\<close>

definition format_line :: "message \<Rightarrow> string" where
  "format_line msg = capitalize (role msg) @ '': '' @ content msg"

definition build_prompt :: "message list \<Rightarrow> string" where
  "build_prompt messages =
     (let prompt = join NL [format_line msg. msg \<leftarrow> messages, role msg \<noteq> ''system'']
      in if messages \<noteq> [] \<and> role (last messages) = ''user''
         then prompt @ NL @ ''User: '' @ content (last messages)
         else prompt)"

text \<open>
  The specification's wording: one line per non-system message, in order, and one more line
  \<open>User: content\<close> when the last message is the user's; the prompt is these lines separated by
  newlines.
\<close>

definition spec_prompt_lines :: "message list \<Rightarrow> string list" where
  "spec_prompt_lines m =
     map (\<lambda>x. capitalize (role x) @ '': '' @ content x) (filter (\<lambda>x. role x \<noteq> ''system'') m)
     @ (if m \<noteq> [] \<and> role (last m) = ''user'' then [''User: '' @ content (last m)] else [])"

lemma concat_map_filter_eq:
  "concat (map (\<lambda>msg. if P msg then [f msg] else []) xs) = map f (filter P xs)"
  by (induction xs) auto

text \<open>
  C3: the prompt is the newline-separated lines of the non-system messages, role capitalised,
  in order; and when the last message has role \<open>user\<close>, the lines end with its
  \<open>User: content\<close> line twice: once as that message's own line, once more as the trailing line.
\<close>

theorem build_prompt_spec:
  "build_prompt m = join NL (spec_prompt_lines m)
   \<and> (m \<noteq> [] \<and> role (last m) = ''user'' \<longrightarrow>
        (\<exists>ls. spec_prompt_lines m
               = ls @ [''User: '' @ content (last m), ''User: '' @ content (last m)]))"
proof -
  let ?lines = "map (\<lambda>x. capitalize (role x) @ '': '' @ content x) (filter (\<lambda>x. role x \<noteq> ''system'') m)"
  have code_lines: "[format_line msg. msg \<leftarrow> m, role msg \<noteq> ''system''] = ?lines"
    by (simp add: concat_map_filter_eq format_line_def)
  show ?thesis
  proof (cases "m \<noteq> [] \<and> role (last m) = ''user''")
    case False
    then show ?thesis
      by (auto simp: build_prompt_def spec_prompt_lines_def code_lines Let_def)
  next
    case True
    then obtain ms x where m: "m = ms @ [x]" and x: "role x = ''user''"
      by (metis append_butlast_last_id)
    have lines: "?lines = map (\<lambda>x. capitalize (role x) @ '': '' @ content x)
                            (filter (\<lambda>x. role x \<noteq> ''system'') ms) @ [''User: '' @ content x]"
      using x by (simp add: m capitalize_user)
    then have ne: "?lines \<noteq> []"
      by simp
    have "build_prompt m = join NL ?lines @ NL @ ''User: '' @ content (last m)"
      using True by (simp add: build_prompt_def code_lines Let_def)
    also have "\<dots> = join NL (?lines @ [''User: '' @ content (last m)])"
      by (rule join_snoc [OF ne, symmetric])
    also have "\<dots> = join NL (spec_prompt_lines m)"
      using True by (simp add: spec_prompt_lines_def)
    finally have eq: "build_prompt m = join NL (spec_prompt_lines m)" .
    have "spec_prompt_lines m = ?lines @ [''User: '' @ content (last m)]"
      using True by (simp add: spec_prompt_lines_def)
    with lines have "spec_prompt_lines m
        = map (\<lambda>x. capitalize (role x) @ '': '' @ content x) (filter (\<lambda>x. role x \<noteq> ''system'') ms)
          @ [''User: '' @ content (last m), ''User: '' @ content (last m)]"
      by (simp add: m)
    with eq show ?thesis
      by blast
  qed
qed

theorem build_prompt_spec_witness:
  "[\<lparr>role = ''system'', content = ''S''\<rparr>, \<lparr>role = ''user'', content = ''hi''\<rparr>] \<noteq> []
   \<and> role (last [\<lparr>role = ''system'', content = ''S''\<rparr>, \<lparr>role = ''user'', content = ''hi''\<rparr>]) = ''user''
   \<and> build_prompt [\<lparr>role = ''system'', content = ''S''\<rparr>, \<lparr>role = ''user'', content = ''hi''\<rparr>]
       = ''User: hi'' @ NL @ ''User: hi''
   \<and> (\<exists>ls. spec_prompt_lines [\<lparr>role = ''system'', content = ''S''\<rparr>, \<lparr>role = ''user'', content = ''hi''\<rparr>]
             = ls @ [''User: '' @ ''hi'', ''User: '' @ ''hi''])"
  using build_prompt_spec [of "[\<lparr>role = ''system'', content = ''S''\<rparr>, \<lparr>role = ''user'', content = ''hi''\<rparr>]"]
  by (simp add: spec_prompt_lines_def capitalize_user)

section \<open>Parsed JSON documents and Python exceptions\<close>

text \<open>
  What \<open>json.load\<close> returns: \<open>None\<close>, a bool, a number, a \<open>str\<close>, a list or a \<open>dict\<close>. A
  \<open>dict\<close> is kept as its items in insertion order; its keys are distinct, as Python's are.
  Numbers are integers here; no code path of the model reads more of a number than whether it
  is zero.
\<close>

datatype json =
    JNull
  | JBool bool
  | JNum int
  | JStr string
  | JArr "json list"
  | JObj "(string \<times> json) list"

datatype exn = OSError | JSONDecodeError | ValueError | KeyError | TypeError | IndexError | AttributeError

text \<open>The calls of \<open>st.error\<close>, by the handler that makes them.\<close>

datatype notice =
    LoadError exn
  | SaveError
  | ImportError exn
  | ApiKeyMissing
  | TimeoutNotice
  | NetworkNotice
  | CriticalNotice

section \<open>Loading the store (utils/chat_manager.py, load_saved_chats)\<close>

text \<open>
  The file at \<open>CHATS_FILE\<close> as the code meets it: absent, present but failing in \<open>open\<close> or
  \<open>read\<close>, or read, with \<open>json.load\<close> raising (\<open>None\<close>) or returning a document.
\<close>

datatype file_read = Missing | Unreadable | Content "json option"

definition is_dict :: "json \<Rightarrow> bool" where
  "is_dict doc = (case doc of JObj _ \<Rightarrow> True | _ \<Rightarrow> False)"

text \<open>
  Lines 21 to 24: \<open>oldest = sorted(chats.keys())[:len(chats) - MAX_CHATS]\<close>, then
  \<open>del chats[key]\<close> for each of them.
\<close>

definition evict :: "(string \<times> 'v) list \<Rightarrow> (string \<times> 'v) list" where
  "evict chats =
     (if length chats > MAX_CHATS
      then let oldest = take (length chats - MAX_CHATS) (sort (map fst chats))
           in fold AList.delete oldest chats
      else chats)"

text \<open>
  The body of the \<open>try\<close>: \<open>Inl\<close> an exception raised, \<open>Inr None\<close> when the \<open>if\<close> is not
  taken and control falls out of the \<open>try\<close>, \<open>Inr (Some chats)\<close> the value returned.
\<close>

definition load_body :: "file_read \<Rightarrow> exn + (string \<times> json) list option" where
  "load_body f =
     (case f of
        Missing \<Rightarrow> Inr None
      | Unreadable \<Rightarrow> Inl OSError
      | Content None \<Rightarrow> Inl JSONDecodeError
      | Content (Some doc) \<Rightarrow>
          (case doc of
             JObj chats \<Rightarrow> Inr (Some (evict chats))
           | _ \<Rightarrow> Inl ValueError))"

definition fallback_chats :: "(string \<times> json) list" where
  "fallback_chats = [(''Default'', JArr [])]"

text \<open>
  The whole function: \<open>except Exception\<close> catches whatever the body raises, reports it with
  \<open>st.error\<close>, and the last line returns the fallback. The result is the returned \<open>dict\<close> and
  the notices shown.
\<close>

definition load_saved_chats :: "file_read \<Rightarrow> (string \<times> json) list \<times> notice list" where
  "load_saved_chats f =
     (case load_body f of
        Inr (Some chats) \<Rightarrow> (chats, [])
      | Inr None \<Rightarrow> (fallback_chats, [])
      | Inl e \<Rightarrow> (fallback_chats, [LoadError e]))"

section \<open>Eviction on load\<close>

lemma fold_delete_filter:
  "fold AList.delete ks al = filter (\<lambda>p. fst p \<notin> set ks) al"
proof (induction ks arbitrary: al)
  case Nil
  show ?case by simp
next
  case (Cons k ks)
  have "AList.delete k al = filter (\<lambda>p. fst p \<noteq> k) al"
    by (induction al) (auto simp: AList.delete_eq)
  then show ?case
    by (simp add: Cons.IH conj_commute)
qed

lemma map_of_filter_notin:
  "map_of (filter (\<lambda>p. fst p \<notin> S) al) k = (if k \<in> S then None else map_of al k)"
  by (induction al) auto

lemma evict_keys:
  "map fst (evict chats) =
     filter (\<lambda>k. k \<notin> set (take (length chats - MAX_CHATS) (sort (map fst chats)))) (map fst chats)"
  by (simp add: evict_def fold_delete_filter filter_map comp_def Let_def)

lemma evict_properties:
  assumes d: "distinct (map fst chats)" and big: "MAX_CHATS < length chats"
  shows "length (evict chats) = MAX_CHATS"
    and "distinct (map fst (evict chats))"
    and "set (map fst (evict chats)) = set (drop (length chats - MAX_CHATS) (sort (map fst chats)))"
    and "map_of (evict chats) k = (if k \<in> set (map fst (evict chats)) then map_of chats k else None)"
proof -
  let ?ks = "map fst chats"
  let ?n = "length chats - MAX_CHATS"
  let ?old = "take ?n (sort ?ks)"
  let ?new = "drop ?n (sort ?ks)"
  have ds: "distinct (sort ?ks)" using d by simp
  have split: "sort ?ks = ?old @ ?new" by simp
  have disj: "set ?old \<inter> set ?new = {}"
    using ds by (metis append_take_drop_id distinct_append)
  have un: "set ?old \<union> set ?new = set ?ks"
    by (metis append_take_drop_id set_append set_sort)
  have keys: "map fst (evict chats) = filter (\<lambda>k. k \<notin> set ?old) ?ks"
    by (rule evict_keys)
  show dk: "distinct (map fst (evict chats))"
    using d by (simp add: keys)
  show sk: "set (map fst (evict chats)) = set ?new"
    using disj un by (auto simp: keys)
  have "length (map fst (evict chats)) = card (set ?new)"
    using dk sk by (metis distinct_card)
  also have "\<dots> = length ?new"
    using ds by (simp add: distinct_card)
  also have "\<dots> = MAX_CHATS"
    using big by simp
  finally show "length (evict chats) = MAX_CHATS" by simp
  have ev: "evict chats = filter (\<lambda>p. fst p \<notin> set ?old) chats"
    using big by (simp add: evict_def fold_delete_filter)
  have "map_of (evict chats) k = (if k \<in> set ?old then None else map_of chats k)"
    unfolding ev by (rule map_of_filter_notin)
  moreover have "k \<in> set (map fst (evict chats)) \<longleftrightarrow> k \<in> set ?ks \<and> k \<notin> set ?old"
    by (auto simp: keys)
  moreover have "k \<notin> set ?ks \<Longrightarrow> map_of chats k = None"
    by (simp add: map_of_eq_None_iff)
  ultimately show "map_of (evict chats) k = (if k \<in> set (map fst (evict chats)) then map_of chats k else None)"
    by auto
qed

lemma sorted_split_less:
  assumes "sorted (xs @ ys)" "distinct (xs @ ys)" "a \<in> set xs" "b \<in> set ys"
  shows "a < b"
  using assms by (auto simp: sorted_append less_le)

text \<open>A store of 51 chats, named by the empty string, \<open>a\<close>, \<open>aa\<close>, and so on.\<close>

definition fifty_one_chats :: "(string \<times> json) list" where
  "fifty_one_chats = map (\<lambda>n. (replicate n CHR ''a'', JArr [])) [0..<51]"

text \<open>
  C1: a persisted mapping with more than \<open>MAX_CHATS\<close> entries loads as a mapping of exactly
  \<open>MAX_CHATS\<close> entries; the keys kept are keys of the original, every evicted key is
  lexicographically smaller than every key kept, and the entries kept have their values.
\<close>

theorem load_saved_chats_eviction:
  assumes "distinct (map fst chats)" and "MAX_CHATS < length chats"
  shows "\<exists>kept. load_saved_chats (Content (Some (JObj chats))) = (kept, [])
           \<and> length kept = MAX_CHATS
           \<and> distinct (map fst kept)
           \<and> set (map fst kept) \<subseteq> set (map fst chats)
           \<and> (\<forall>a\<in>set (map fst chats) - set (map fst kept). \<forall>b\<in>set (map fst kept). a < b)
           \<and> (\<forall>k\<in>set (map fst kept). map_of kept k = map_of chats k)"
proof -
  let ?n = "length chats - MAX_CHATS"
  let ?srt = "sort (map fst chats)"
  have load: "load_saved_chats (Content (Some (JObj chats))) = (evict chats, [])"
    by (simp add: load_saved_chats_def load_body_def)
  have len: "length (evict chats) = MAX_CHATS"
    and dist: "distinct (map fst (evict chats))"
    and keys: "set (map fst (evict chats)) = set (drop ?n ?srt)"
    using evict_properties [OF assms] by blast+
  have sub: "set (map fst (evict chats)) \<subseteq> set (map fst chats)"
    by (metis keys set_drop_subset set_sort)
  have srt: "sorted (take ?n ?srt @ drop ?n ?srt)" "distinct (take ?n ?srt @ drop ?n ?srt)"
    using assms(1) by simp_all
  have order: "a < b" if a: "a \<in> set (map fst chats) - set (map fst (evict chats))"
    and b: "b \<in> set (map fst (evict chats))" for a b
  proof -
    have "a \<in> set (take ?n ?srt @ drop ?n ?srt)"
      using a by simp
    with a have "a \<in> set (take ?n ?srt)"
      unfolding keys set_append by blast
    moreover have "b \<in> set (drop ?n ?srt)"
      using b by (simp only: keys)
    ultimately show ?thesis
      by (rule sorted_split_less [OF srt])
  qed
  have vals: "map_of (evict chats) k = map_of chats k" if "k \<in> set (map fst (evict chats))" for k
    using evict_properties(4) [OF assms, of k] that by simp
  from load len dist sub order vals show ?thesis
    by blast
qed

theorem load_saved_chats_eviction_witness:
  "distinct (map fst fifty_one_chats) \<and> MAX_CHATS < length fifty_one_chats
   \<and> (\<exists>kept. load_saved_chats (Content (Some (JObj fifty_one_chats))) = (kept, [])
         \<and> length kept = 50 \<and> [] \<notin> set (map fst kept))"
proof -
  have inj: "inj_on (\<lambda>n. replicate n CHR ''a'') (set [0..<51])"
    by (rule inj_onI) (metis length_replicate)
  have d: "distinct (map fst fifty_one_chats)"
    by (simp add: fifty_one_chats_def comp_def distinct_map inj del: upt.simps set_upt)
  have big: "MAX_CHATS < length fifty_one_chats"
    by (simp add: fifty_one_chats_def MAX_CHATS_def)
  obtain kept where load: "load_saved_chats (Content (Some (JObj fifty_one_chats))) = (kept, [])"
    and len: "length kept = MAX_CHATS" and dk: "distinct (map fst kept)"
    and sub: "set (map fst kept) \<subseteq> set (map fst fifty_one_chats)"
    and order: "\<forall>a\<in>set (map fst fifty_one_chats) - set (map fst kept). \<forall>b\<in>set (map fst kept). a < b"
    using load_saved_chats_eviction [OF d big] by blast
  have "[] \<notin> set (map fst kept)"
  proof
    assume e: "[] \<in> set (map fst kept)"
    have "card (set (map fst kept)) = 50"
      using distinct_card [OF dk] len by (simp add: MAX_CHATS_def)
    moreover have "card (set (map fst fifty_one_chats)) = 51"
      using distinct_card [OF d] by (simp add: fifty_one_chats_def)
    ultimately have "set (map fst kept) \<noteq> set (map fst fifty_one_chats)"
      by auto
    with sub obtain a where a: "a \<in> set (map fst fifty_one_chats) - set (map fst kept)"
      by blast
    with order e have "a < ([] :: string)"
      by blast
    then show False
      by simp
  qed
  with d big load len show ?thesis
    by (auto simp: MAX_CHATS_def)
qed

text \<open>
  C9: a missing file, a file that cannot be read, a file that is not JSON and a JSON document
  that is not an object all load as the fallback \<open>{"Default": []}\<close>; the function returns in
  each case, and the three errors show as one notice each.
\<close>

theorem load_saved_chats_fallback:
  "load_saved_chats Missing = ([(''Default'', JArr [])], [])
   \<and> load_saved_chats Unreadable = ([(''Default'', JArr [])], [LoadError OSError])
   \<and> load_saved_chats (Content None) = ([(''Default'', JArr [])], [LoadError JSONDecodeError])
   \<and> (\<not> is_dict doc \<longrightarrow>
        load_saved_chats (Content (Some doc)) = ([(''Default'', JArr [])], [LoadError ValueError]))"
  by (cases doc) (simp_all add: load_saved_chats_def load_body_def fallback_chats_def is_dict_def)

theorem load_saved_chats_fallback_witness:
  "\<not> is_dict (JArr [JStr ''x''])
   \<and> load_saved_chats (Content (Some (JArr [JStr ''x''])))
       = ([(''Default'', JArr [])], [LoadError ValueError])"
  using load_saved_chats_fallback [of "JArr [JStr ''x'']"]
  by (simp add: is_dict_def)

section \<open>The session (st.session_state) and its surroundings\<close>

text \<open>
  A key of the \<open>chats\<close> dict is a \<open>str\<close> or, as \<open>create_new_chat\<close> can store it, \<open>None\<close>. The
  dict is kept as its items in insertion order: \<open>chats[k] = v\<close> is \<open>AList.update k v\<close>,
  \<open>k in chats\<close> is membership in \<open>map fst\<close>.
\<close>

type_synonym key = "string option"

type_synonym store = "(key \<times> message list) list"

text \<open>
  The fields of \<open>st.session_state\<close> the core reads and writes, and three observations of the
  world outside: \<open>disk\<close>, the dict last written to \<open>CHATS_FILE\<close> by \<open>save_chats\<close> (\<open>None\<close>
  before the first write); \<open>requests\<close>, the prompts POSTed to the completion endpoint, in
  order; \<open>notices\<close>, the calls of \<open>st.error\<close>, in order. \<open>last_request_time = None\<close> stands
  for the key being absent from the session state.

  In the code \<open>messages\<close> may be the very list object stored under \<open>current_chat\<close>. The
  only in-place mutation is \<open>messages.append\<close> in \<open>handle_user_input\<close>, and each append is
  followed at once by the assignment of a fresh trimmed list to that entry, so the two are kept
  here as separate values.
\<close>

record session =
  language :: language
  current_chat :: key
  chats :: store
  messages :: "message list"
  is_chat_input_disabled :: bool
  last_request_time :: "real option"
  disk :: "store option"
  requests :: "string list"
  notices :: "notice list"

text \<open>What \<open>requests.post\<close> does: it raises \<open>requests.Timeout\<close>, or another
  \<open>RequestException\<close>, or returns a response with a status code and a body, for which
  \<open>response.json()\<close> raises (\<open>None\<close>) or returns a document.\<close>

datatype http_outcome = Timeout | RequestException | Response nat "json option"

text \<open>
  What one call of a handler reads from outside the session: \<open>time()\<close>, modelled as a real
  number of seconds; \<open>datetime.now().strftime("%d.%m.%Y %H:%M")\<close>; \<open>os.getenv("API_KEY")\<close>; the
  outcome of the POST, if one is made; and whether \<open>open(CHATS_FILE, 'w')\<close> succeeds.
\<close>

record env =
  clock :: real
  timestamp :: string
  api_key :: "string option"
  http :: http_outcome
  file_writable :: bool

definition save_chats :: "env \<Rightarrow> session \<Rightarrow> session" where
  "save_chats e s =
     (if file_writable e then s\<lparr>disk := Some (chats s)\<rparr>
      else s\<lparr>notices := notices s @ [SaveError]\<rparr>)"

section \<open>Chat management (utils/chat_manager.py)\<close>

text \<open>\<open>str(n)\<close> for a natural number.\<close>

fun str_nat :: "nat \<Rightarrow> string" where
  "str_nat n = (if n < 10 then [digits ! n] else str_nat (n div 10) @ [digits ! (n mod 10)])"

declare str_nat.simps [simp del]

definition generate_chat_name :: "env \<Rightarrow> session \<Rightarrow> string" where
  "generate_chat_name e s =
     (let chat_count = length (chats s)
      in ''Chat '' @ str_nat (chat_count + 1) @ '' ('' @ timestamp e @ '')'')"

text \<open>Line 49: the characters kept, then \<open>strip()\<close>.\<close>

definition sanitize :: "string \<Rightarrow> string" where
  "sanitize chat_name = strip (filter (\<lambda>c. isalnum c \<or> c \<in> set '' -_()'') chat_name)"

definition default_system_message :: "language \<Rightarrow> message" where
  "default_system_message lang = \<lparr>role = ''system'', content = DEFAULT_SYSTEM_MESSAGE lang\<rparr>"

text \<open>
  Lines 48 to 51: the block runs only when \<open>chat_name\<close> is truthy, a non-empty \<open>str\<close>; for
  \<open>None\<close> and for the empty string the name stays as it was given.
\<close>

definition resolve_chat_name :: "env \<Rightarrow> key \<Rightarrow> session \<Rightarrow> key" where
  "resolve_chat_name e chat_name s =
     (case chat_name of
        None \<Rightarrow> None
      | Some n \<Rightarrow>
          if n = [] then Some n
          else let n' = sanitize n
               in if n' = [] then Some (generate_chat_name e s) else Some n')"

definition create_new_chat :: "env \<Rightarrow> key \<Rightarrow> session \<Rightarrow> session" where
  "create_new_chat e chat_name s =
     (let chat_name = resolve_chat_name e chat_name s
      in if chat_name \<notin> set (map fst (chats s))
         then let lang = language s;
                  new = [default_system_message lang]
              in save_chats e
                   (s\<lparr>chats := AList.update chat_name new (chats s),
                      current_chat := chat_name,
                      messages := new\<rparr>)
         else s)"

definition clear_current_chat :: "env \<Rightarrow> session \<Rightarrow> session" where
  "clear_current_chat e s =
     (if messages s \<noteq> []
      then let system_messages = [msg \<leftarrow> messages s. role msg = ''system''];
               new = (if system_messages \<noteq> [] then system_messages
                      else [default_system_message (language s)])
           in save_chats e
                (s\<lparr>messages := new,
                   chats := AList.update (current_chat s) new (chats s)\<rparr>)
      else s)"

section \<open>Python operators on parsed JSON\<close>

text \<open>\<open>bool(x)\<close>.\<close>

fun truthy :: "json \<Rightarrow> bool" where
  "truthy JNull = False"
| "truthy (JBool b) = b"
| "truthy (JNum n) = (n \<noteq> 0)"
| "truthy (JStr s) = (s \<noteq> [])"
| "truthy (JArr xs) = (xs \<noteq> [])"
| "truthy (JObj kvs) = (kvs \<noteq> [])"

fun startswith :: "string \<Rightarrow> string \<Rightarrow> bool" where
  "startswith [] s = True"
| "startswith (x # xs) [] = False"
| "startswith (x # xs) (c # cs) = (x = c \<and> startswith xs cs)"

text \<open>\<open>sub in s\<close> for two strings.\<close>

fun contains_str :: "string \<Rightarrow> string \<Rightarrow> bool" where
  "contains_str sub [] = (sub = [])"
| "contains_str sub (c # cs) = (startswith sub (c # cs) \<or> contains_str sub cs)"

text \<open>
  \<open>k in x\<close> for a string \<open>k\<close>: a key of a dict, an element of a list, a substring of a
  string; \<open>TypeError\<close> for \<open>None\<close>, a bool or a number.
\<close>

fun py_in :: "string \<Rightarrow> json \<Rightarrow> exn + bool" where
  "py_in k (JObj kvs) = Inr (k \<in> set (map fst kvs))"
| "py_in k (JArr xs) = Inr (JStr k \<in> set xs)"
| "py_in k (JStr s) = Inr (contains_str k s)"
| "py_in k _ = Inl TypeError"

text \<open>\<open>x[k]\<close> for a string \<open>k\<close>: only a dict can be indexed by a string.\<close>

fun getitem_str :: "json \<Rightarrow> string \<Rightarrow> exn + json" where
  "getitem_str (JObj kvs) k = (case map_of kvs k of Some v \<Rightarrow> Inr v | None \<Rightarrow> Inl KeyError)"
| "getitem_str _ k = Inl TypeError"

text \<open>\<open>x[0]\<close>: a dict read from JSON has no key \<open>0\<close>.\<close>

fun getitem_0 :: "json \<Rightarrow> exn + json" where
  "getitem_0 (JArr []) = Inl IndexError"
| "getitem_0 (JArr (x # xs)) = Inr x"
| "getitem_0 (JStr []) = Inl IndexError"
| "getitem_0 (JStr (c # cs)) = Inr (JStr [c])"
| "getitem_0 (JObj kvs) = Inl KeyError"
| "getitem_0 _ = Inl TypeError"

text \<open>\<open>x.strip()\<close>: only a \<open>str\<close> has the method.\<close>

fun py_strip :: "json \<Rightarrow> exn + string" where
  "py_strip (JStr s) = Inr (strip s)"
| "py_strip _ = Inl AttributeError"

section \<open>The completion call, the rate limiter and validation (utils/message_handler.py)\<close>

text \<open>\<open>response.raise_for_status()\<close> raises for the client and server error codes.\<close>

definition raise_for_status :: "nat \<Rightarrow> bool" where
  "raise_for_status status = (400 \<le> status \<and> status < 600)"

definition notify :: "notice \<Rightarrow> session \<Rightarrow> session" where
  "notify n s = s\<lparr>notices := notices s @ [n]\<rparr>"

text \<open>
  The value returned is Python's: \<open>JNull\<close> is \<open>None\<close>. Every exception of the body is caught by
  one of the three handlers, each of which reports and falls through to \<open>return None\<close>. The
  request counts as issued once \<open>requests.post\<close> is called. A body that is not JSON makes
  \<open>response.json()\<close> raise; which of the last two handlers reports it depends on the version of
  the library, and it is recorded as a network notice.
\<close>

definition get_model_response :: "env \<Rightarrow> message list \<Rightarrow> session \<Rightarrow> json \<times> session" where
  "get_model_response e msgs s =
     (if api_key e = None \<or> api_key e = Some [] then (JNull, notify ApiKeyMissing s)
      else let prompt = build_prompt msgs;
               s = s\<lparr>requests := requests s @ [prompt]\<rparr>
           in case http e of
                Timeout \<Rightarrow> (JNull, notify TimeoutNotice s)
              | RequestException \<Rightarrow> (JNull, notify NetworkNotice s)
              | Response status body \<Rightarrow>
                  if raise_for_status status then (JNull, notify NetworkNotice s)
                  else (case body of
                          None \<Rightarrow> (JNull, notify NetworkNotice s)
                        | Some doc \<Rightarrow> (doc, s)))"

definition rate_limit_check :: "env \<Rightarrow> session \<Rightarrow> bool \<times> session" where
  "rate_limit_check e s =
     (let current_time = clock e
      in case last_request_time s of
           None \<Rightarrow> (True, s\<lparr>last_request_time := Some current_time\<rparr>)
         | Some t \<Rightarrow>
             if current_time - t < 1 then (False, s)
             else (True, s\<lparr>last_request_time := Some current_time\<rparr>))"

definition validate_message :: "string \<Rightarrow> bool" where
  "validate_message content' =
     (if content' = [] \<or> length (strip content') = 0 then False
      else if length content' > 4096 then False
      else True)"

section \<open>Sending a message (main.py, handle_user_input)\<close>

text \<open>
  Lines 246 and 247: the condition \<open>response and "choices" in response and response["choices"]\<close>
  and then \<open>response["choices"][0]["text"].strip()\<close>. \<open>Inr None\<close>: the condition is false;
  \<open>Inr (Some t)\<close>: the stripped text; \<open>Inl\<close>: an exception, which nothing in
  \<open>handle_user_input\<close> catches.
\<close>

definition response_text :: "json \<Rightarrow> exn + string option" where
  "response_text response =
     (if \<not> truthy response then Inr None
      else case py_in ''choices'' response of
             Inl ex \<Rightarrow> Inl ex
           | Inr False \<Rightarrow> Inr None
           | Inr True \<Rightarrow>
               (case getitem_str response ''choices'' of
                  Inl ex \<Rightarrow> Inl ex
                | Inr choices \<Rightarrow>
                    if \<not> truthy choices then Inr None
                    else (case getitem_0 choices of
                            Inl ex \<Rightarrow> Inl ex
                          | Inr first \<Rightarrow>
                              (case getitem_str first ''text'' of
                                 Inl ex \<Rightarrow> Inl ex
                               | Inr text \<Rightarrow>
                                   (case py_strip text of
                                      Inl ex \<Rightarrow> Inl ex
                                    | Inr t \<Rightarrow> Inr (Some t))))))"

text \<open>Lines 237 to 240 and 255 to 258: the store's entry becomes the trimmed list, and is saved.\<close>

definition store_trimmed :: "env \<Rightarrow> session \<Rightarrow> session" where
  "store_trimmed e s =
     save_chats e (s\<lparr>chats := AList.update (current_chat s) (trim_message_history (messages s)) (chats s)\<rparr>)"

text \<open>
  The result is the exception that leaves the function, if any, and the session after it. The
  \<open>or\<close> of line 231 does not call \<open>rate_limit_check\<close> when validation fails.
\<close>

definition handle_user_input :: "env \<Rightarrow> string \<Rightarrow> session \<Rightarrow> exn option \<times> session" where
  "handle_user_input e user_input s =
     (if \<not> validate_message user_input then (None, s)
      else case rate_limit_check e s of
        (allowed, s) \<Rightarrow>
          if \<not> allowed then (None, s)
          else
            let s = s\<lparr>messages := messages s @ [\<lparr>role = ''user'', content = user_input\<rparr>]\<rparr>;
                s = s\<lparr>is_chat_input_disabled := True\<rparr>;
                s = store_trimmed e s
            in case get_model_response e (messages s) s of
                 (response, s) \<Rightarrow>
                   (case response_text response of
                      Inl ex \<Rightarrow> (Some ex, s)
                    | Inr None \<Rightarrow> (None, s\<lparr>is_chat_input_disabled := False\<rparr>)
                    | Inr (Some assistant_response) \<Rightarrow>
                        if assistant_response = [] then (None, s\<lparr>is_chat_input_disabled := False\<rparr>)
                        else
                          let s = s\<lparr>messages := messages s
                                        @ [\<lparr>role = ''assistant'', content = assistant_response\<rparr>]\<rparr>;
                              s = store_trimmed e s
                          in (None, s\<lparr>is_chat_input_disabled := False\<rparr>)))"

section \<open>Import (utils/chat_io.py, import_chat)\<close>

text \<open>
  The generator inside \<open>all(...)\<close>: it stops at the first element for which the test is false,
  and an exception of the test leaves it.
\<close>

fun all_have_keys :: "json list \<Rightarrow> exn + bool" where
  "all_have_keys [] = Inr True"
| "all_have_keys (msg # rest) =
     (case py_in ''role'' msg of
        Inl ex \<Rightarrow> Inl ex
      | Inr False \<Rightarrow> Inr False
      | Inr True \<Rightarrow>
          (case py_in ''content'' msg of
             Inl ex \<Rightarrow> Inl ex
           | Inr False \<Rightarrow> Inr False
           | Inr True \<Rightarrow> all_have_keys rest))"

text \<open>Line 28: \<open>Inl\<close> the exception raised, \<open>Inr\<close> the list accepted.\<close>

definition import_check :: "json \<Rightarrow> exn + json list" where
  "import_check chat_data =
     (case chat_data of
        JArr items \<Rightarrow>
          (case all_have_keys items of
             Inl ex \<Rightarrow> Inl ex
           | Inr False \<Rightarrow> Inl ValueError
           | Inr True \<Rightarrow> Inr items)
      | _ \<Rightarrow> Inl ValueError)"

text \<open>
  The session keeps messages as records of two strings. An element of an accepted list is read
  as such a record when it is an object of exactly the keys \<open>role\<close> and \<open>content\<close> with string
  values.
\<close>

definition as_message :: "json \<Rightarrow> message option" where
  "as_message j =
     (case j of
        JObj kvs \<Rightarrow>
          (case (map_of kvs ''role'', map_of kvs ''content'') of
             (Some (JStr r), Some (JStr c)) \<Rightarrow>
               if length kvs = 2 then Some \<lparr>role = r, content = c\<rparr> else None
           | _ \<Rightarrow> None)
      | _ \<Rightarrow> None)"

fun as_messages :: "json list \<Rightarrow> message list option" where
  "as_messages [] = Some []"
| "as_messages (j # js) =
     (case as_message j of
        None \<Rightarrow> None
      | Some m \<Rightarrow> (case as_messages js of None \<Rightarrow> None | Some ms \<Rightarrow> Some (m # ms)))"

text \<open>
  \<open>import_chat\<close> for an uploaded file of the given name whose content \<open>json.load\<close> could not
  read (\<open>None\<close>) or read as a document. The result is \<open>None\<close> where the code accepts a list
  that holds an element which is no message record: the code stores it, and the model's
  session cannot hold it.
\<close>

definition import_chat :: "env \<Rightarrow> string \<Rightarrow> json option \<Rightarrow> session \<Rightarrow> session option" where
  "import_chat e name uploaded s =
     (case uploaded of
        None \<Rightarrow> Some (notify (ImportError JSONDecodeError) s)
      | Some chat_data \<Rightarrow>
          let chat_name = Some (''Import: '' @ name)
          in case import_check chat_data of
               Inl ex \<Rightarrow> Some (notify (ImportError ex) s)
             | Inr items \<Rightarrow>
                 (case as_messages items of
                    None \<Rightarrow> None
                  | Some msgs \<Rightarrow>
                      Some (save_chats e
                              (s\<lparr>chats := AList.update chat_name msgs (chats s),
                                 current_chat := chat_name,
                                 messages := msgs\<rparr>))))"

text \<open>
  The session of a first run with no chats file, after \<open>init_session_state\<close>: the one chat
  \<open>Default\<close> with the English default system message, which is also the current list.
\<close>

definition initial_session :: session where
  "initial_session =
     \<lparr>language = En,
      current_chat = Some ''Default'',
      chats = [(Some ''Default'', [default_system_message En])],
      messages = [default_system_message En],
      is_chat_input_disabled = False,
      last_request_time = None,
      disk = None,
      requests = [],
      notices = []\<rparr>"

section \<open>Validation and the rate limiter\<close>

text \<open>An environment for examples: the clock reading and the outcome of the POST are given, the
  API key is set and the chats file can be written.\<close>

definition env_at :: "real \<Rightarrow> http_outcome \<Rightarrow> env" where
  "env_at t outcome =
     \<lparr>clock = t, timestamp = ''01.01.2025 12:00'', api_key = Some ''secret'',
      http = outcome, file_writable = True\<rparr>"

lemma validate_message_iff:
  "validate_message text \<longleftrightarrow> \<not> (text = [] \<or> (\<forall>c\<in>set text. isspace c) \<or> 4096 < length text)"
  by (auto simp: validate_message_def strip_empty_iff)

text \<open>
  C8: for an input that is empty, all white space (that of \<open>str.strip()\<close>, the no-break space
  included), or longer than 4096 characters,
  \<open>handle_user_input\<close> returns with no exception and the session as it was: no message
  appended, nothing written to the chats file, no request issued, no notice shown.
\<close>

theorem handle_user_input_invalid:
  assumes "user_input = [] \<or> (\<forall>c\<in>set user_input. isspace c) \<or> 4096 < length user_input"
  shows "handle_user_input e user_input s = (None, s)"
  using assms by (simp add: handle_user_input_def validate_message_iff)

theorem handle_user_input_invalid_witness:
  "('' '' = [] \<or> (\<forall>c\<in>set '' ''. isspace c) \<or> 4096 < length '' '')
   \<and> handle_user_input (env_at 0 Timeout) '' '' initial_session = (None, initial_session)
   \<and> ([CHR 0xA0, CHR 0x85] = [] \<or> (\<forall>c\<in>set [CHR 0xA0, CHR 0x85]. isspace c)
        \<or> 4096 < length [CHR 0xA0, CHR 0x85])
   \<and> handle_user_input (env_at 0 Timeout) [CHR 0xA0, CHR 0x85] initial_session = (None, initial_session)
   \<and> (replicate 4097 CHR ''a'' = [] \<or> (\<forall>c\<in>set (replicate 4097 CHR ''a''). isspace c)
        \<or> 4096 < length (replicate 4097 CHR ''a''))
   \<and> handle_user_input (env_at 0 Timeout) (replicate 4097 CHR ''a'') initial_session = (None, initial_session)
   \<and> handle_user_input (env_at 0 Timeout) [] initial_session = (None, initial_session)"
  using handle_user_input_invalid [of "'' ''" "env_at 0 Timeout" initial_session]
    handle_user_input_invalid [of "[CHR 0xA0, CHR 0x85]" "env_at 0 Timeout" initial_session]
    handle_user_input_invalid [of "replicate 4097 CHR ''a''" "env_at 0 Timeout" initial_session]
    handle_user_input_invalid [of "[]" "env_at 0 Timeout" initial_session]
  by (simp add: isspace_def whitespace_def)

lemma save_chats_fields [simp]:
  "last_request_time (save_chats e s) = last_request_time s"
  "messages (save_chats e s) = messages s"
  "chats (save_chats e s) = chats s"
  "current_chat (save_chats e s) = current_chat s"
  "language (save_chats e s) = language s"
  "requests (save_chats e s) = requests s"
  by (simp_all add: save_chats_def)

lemma store_trimmed_fields [simp]:
  "last_request_time (store_trimmed e s) = last_request_time s"
  "messages (store_trimmed e s) = messages s"
  "chats (store_trimmed e s) = AList.update (current_chat s) (trim_message_history (messages s)) (chats s)"
  "current_chat (store_trimmed e s) = current_chat s"
  "language (store_trimmed e s) = language s"
  "requests (store_trimmed e s) = requests s"
  by (simp_all add: store_trimmed_def)

lemma get_model_response_fields:
  assumes "get_model_response e msgs s = (r, s')"
  shows "last_request_time s' = last_request_time s"
    and "messages s' = messages s"
    and "chats s' = chats s"
    and "current_chat s' = current_chat s"
    and "language s' = language s"
    and "disk s' = disk s"
    and "is_chat_input_disabled s' = is_chat_input_disabled s"
  using assms
  by (auto simp: get_model_response_def notify_def Let_def
      split: if_splits option.splits http_outcome.splits)

lemma get_model_response_sends_prompt:
  assumes "api_key e = Some k" and "k \<noteq> []"
  shows "requests (snd (get_model_response e msgs s)) = requests s @ [build_prompt msgs]"
  using assms
  by (simp add: get_model_response_def notify_def Let_def split: http_outcome.splits option.splits)

lemma handle_user_input_accepted_time:
  assumes "validate_message text" and "fst (rate_limit_check e s)"
  shows "last_request_time (snd (handle_user_input e text s)) = Some (clock e)"
proof -
  obtain s0 where r: "rate_limit_check e s = (True, s0)"
    using assms(2) by (cases "rate_limit_check e s") auto
  then have t: "last_request_time s0 = Some (clock e)"
    by (auto simp: rate_limit_check_def Let_def split: option.splits if_splits)
  show ?thesis
    using assms(1) r t
    by (auto simp: handle_user_input_def Let_def get_model_response_fields(1)
        split: prod.splits sum.splits option.splits)
qed

text \<open>
  C7, as the code has it: the first check of a session allows; a later check allows exactly when
  at least one second has passed since the time stored, which is the time of the last check that
  allowed, since the time is stored exactly when the check allows. Of two calls of
  \<open>handle_user_input\<close> less than one second apart, the second changes nothing when the first
  passed validation and the rate limit.
\<close>

theorem rate_limit_check_spec:
  "(last_request_time s = None \<longrightarrow> fst (rate_limit_check e s))
   \<and> (\<forall>t. last_request_time s = Some t \<longrightarrow> fst (rate_limit_check e s) = (1 \<le> clock e - t))
   \<and> snd (rate_limit_check e s)
       = (if fst (rate_limit_check e s) then s\<lparr>last_request_time := Some (clock e)\<rparr> else s)
   \<and> (validate_message text1 \<and> fst (rate_limit_check e1 s) \<and> clock e2 - clock e1 < 1 \<longrightarrow>
        handle_user_input e2 text2 (snd (handle_user_input e1 text1 s))
          = (None, snd (handle_user_input e1 text1 s)))"
proof -
  have a: "last_request_time s = None \<longrightarrow> fst (rate_limit_check e s)"
    by (simp add: rate_limit_check_def)
  have b: "\<forall>t. last_request_time s = Some t \<longrightarrow> fst (rate_limit_check e s) = (1 \<le> clock e - t)"
    by (auto simp: rate_limit_check_def Let_def)
  have c: "snd (rate_limit_check e s)
       = (if fst (rate_limit_check e s) then s\<lparr>last_request_time := Some (clock e)\<rparr> else s)"
    by (simp add: rate_limit_check_def Let_def split: option.splits)
  have d: "handle_user_input e2 text2 (snd (handle_user_input e1 text1 s))
          = (None, snd (handle_user_input e1 text1 s))"
    if v: "validate_message text1" and r: "fst (rate_limit_check e1 s)" and near: "clock e2 - clock e1 < 1"
  proof -
    have "last_request_time (snd (handle_user_input e1 text1 s)) = Some (clock e1)"
      using v r by (rule handle_user_input_accepted_time)
    with near show ?thesis
      by (simp add: handle_user_input_def rate_limit_check_def Let_def)
  qed
  from a b c d show ?thesis
    by blast
qed

text \<open>
  Three sends from the initial session, at 0 s, 0.9 s and 1.5 s, each POST timing out. The
  second is suppressed; the third comes 0.6 s after the second and is not.
\<close>

definition after_a :: session where
  "after_a = snd (handle_user_input (env_at 0 Timeout) ''a'' initial_session)"

definition after_b :: session where
  "after_b = snd (handle_user_input (env_at (9 / 10) Timeout) ''b'' after_a)"

lemmas eval_defs = handle_user_input_def validate_message_def rate_limit_check_def store_trimmed_def
  save_chats_def get_model_response_def notify_def response_text_def raise_for_status_def
  trim_message_history_def slice_from_neg_def MAX_HISTORY_LENGTH_def
  initial_session_def env_at_def default_system_message_def strip_def isspace_def whitespace_def
  Let_def

lemma after_a_eq:
  "after_a = initial_session
     \<lparr>messages := [default_system_message En, \<lparr>role = ''user'', content = ''a''\<rparr>],
      chats := [(Some ''Default'', [default_system_message En, \<lparr>role = ''user'', content = ''a''\<rparr>])],
      last_request_time := Some 0,
      disk := Some [(Some ''Default'', [default_system_message En, \<lparr>role = ''user'', content = ''a''\<rparr>])],
      requests := [build_prompt [default_system_message En, \<lparr>role = ''user'', content = ''a''\<rparr>]],
      notices := [TimeoutNotice]\<rparr>"
  by (simp add: after_a_def eval_defs)

lemma after_b_eq: "after_b = after_a"
  by (simp add: after_b_def after_a_eq) (simp add: eval_defs)

text \<open>
  C7, as stated, fails: the sends at 0.9 s and 1.5 s are less than one second apart, and the
  later one appends its message and issues a request.
\<close>

theorem two_sends_counterexample:
  "clock (env_at (3 / 2) Timeout) - clock (env_at (9 / 10) Timeout) < 1
   \<and> after_b = snd (handle_user_input (env_at (9 / 10) Timeout) ''b'' after_a)
   \<and> messages (snd (handle_user_input (env_at (3 / 2) Timeout) ''c'' after_b))
       = messages after_b @ [\<lparr>role = ''user'', content = ''c''\<rparr>]
   \<and> length (requests (snd (handle_user_input (env_at (3 / 2) Timeout) ''c'' after_b)))
       = length (requests after_b) + 1"
  by (simp add: after_b_eq after_b_def [symmetric]) (simp add: after_a_eq, simp add: eval_defs)

theorem rate_limit_check_spec_witness:
  "(last_request_time initial_session = None \<and> fst (rate_limit_check (env_at 0 Timeout) initial_session))
   \<and> (last_request_time after_a = Some 0 \<and> \<not> fst (rate_limit_check (env_at (1 / 2) Timeout) after_a))
   \<and> (validate_message ''a'' \<and> fst (rate_limit_check (env_at 0 Timeout) initial_session)
        \<and> clock (env_at (1 / 2) Timeout) - clock (env_at 0 Timeout) < 1
        \<and> handle_user_input (env_at (1 / 2) Timeout) ''b'' after_a = (None, after_a))"
proof -
  have h1: "last_request_time initial_session = None"
    by (simp add: initial_session_def)
  have h2: "last_request_time after_a = Some 0"
    by (simp add: after_a_eq)
  have h3: "validate_message ''a''"
    by (simp add: validate_message_def strip_def isspace_def whitespace_def)
  have h4: "clock (env_at (1 / 2) Timeout) - clock (env_at 0 Timeout) < 1"
    by (simp add: env_at_def)
  have h5: "clock (env_at (1 / 2) Timeout) = 1 / 2"
    by (simp add: env_at_def)
  note A = rate_limit_check_spec [where s = initial_session and e = "env_at 0 Timeout"
      and ?text1.0 = "''a''" and ?e1.0 = "env_at 0 Timeout" and ?e2.0 = "env_at (1 / 2) Timeout"
      and ?text2.0 = "''b''"]
  note B = rate_limit_check_spec [where s = after_a and e = "env_at (1 / 2) Timeout"]
  from A h1 have a1: "fst (rate_limit_check (env_at 0 Timeout) initial_session)"
    by blast
  from B h2 have "fst (rate_limit_check (env_at (1 / 2) Timeout) after_a) = (1 \<le> clock (env_at (1 / 2) Timeout) - 0)"
    by blast
  then have b1: "\<not> fst (rate_limit_check (env_at (1 / 2) Timeout) after_a)"
    by (simp add: h5)
  from A h3 a1 h4 have "handle_user_input (env_at (1 / 2) Timeout) ''b''
        (snd (handle_user_input (env_at 0 Timeout) ''a'' initial_session))
      = (None, snd (handle_user_input (env_at 0 Timeout) ''a'' initial_session))"
    by blast
  then have c1: "handle_user_input (env_at (1 / 2) Timeout) ''b'' after_a = (None, after_a)"
    by (simp add: after_a_def)
  from h1 a1 h2 b1 h3 h4 c1 show ?thesis
    by blast
qed

section \<open>The part of a send after the completion call\<close>

lemma rate_limit_check_result:
  "rate_limit_check e s
     = (fst (rate_limit_check e s),
        if fst (rate_limit_check e s) then s\<lparr>last_request_time := Some (clock e)\<rparr> else s)"
  by (simp add: rate_limit_check_def Let_def split: option.splits)

text \<open>Lines 246 to 261 of \<open>handle_user_input\<close>: what follows the return of
  \<open>get_model_response\<close>.\<close>

definition finish_send :: "env \<Rightarrow> json \<times> session \<Rightarrow> exn option \<times> session" where
  "finish_send e p =
     (case p of (response, s) \<Rightarrow>
        (case response_text response of
           Inl ex \<Rightarrow> (Some ex, s)
         | Inr None \<Rightarrow> (None, s\<lparr>is_chat_input_disabled := False\<rparr>)
         | Inr (Some t) \<Rightarrow>
             if t = [] then (None, s\<lparr>is_chat_input_disabled := False\<rparr>)
             else (None, (store_trimmed e (s\<lparr>messages := messages s @ [\<lparr>role = ''assistant'', content = t\<rparr>]\<rparr>))
                           \<lparr>is_chat_input_disabled := False\<rparr>)))"

lemma handle_user_input_accepted:
  assumes "validate_message user_input" and "fst (rate_limit_check e s)"
  shows "handle_user_input e user_input s =
     (let s3 = store_trimmed e
                 (s\<lparr>last_request_time := Some (clock e),
                    messages := messages s @ [\<lparr>role = ''user'', content = user_input\<rparr>],
                    is_chat_input_disabled := True\<rparr>)
      in finish_send e (get_model_response e (messages s3) s3))"
proof -
  have r: "rate_limit_check e s = (True, s\<lparr>last_request_time := Some (clock e)\<rparr>)"
    using assms(2) rate_limit_check_result [of e s] by simp
  show ?thesis
    unfolding handle_user_input_def finish_send_def Let_def r
    using assms(1) by (simp cong: prod.case_cong sum.case_cong option.case_cong if_cong)
qed

lemma handle_user_input_rejected:
  assumes "\<not> (validate_message user_input \<and> fst (rate_limit_check e s))"
  shows "handle_user_input e user_input s = (None, s)"
proof (cases "validate_message user_input")
  case False
  then show ?thesis
    by (simp add: handle_user_input_def)
next
  case True
  with assms have "rate_limit_check e s = (False, s)"
    using rate_limit_check_result [of e s] by simp
  then show ?thesis
    by (simp add: handle_user_input_def)
qed

section \<open>Sequences of controller operations\<close>

text \<open>
  Creating a chat, clearing the current chat, importing an uploaded file and sending a message,
  each with the environment it runs in. A step is \<open>None\<close> where \<open>import_chat\<close> is: where the
  code stores an element that is no message record.
\<close>

datatype op = Create key | Clear | Import string "json option" | Send string

definition step :: "env \<Rightarrow> op \<Rightarrow> session \<Rightarrow> session option" where
  "step e operation s =
     (case operation of
        Create chat_name \<Rightarrow> Some (create_new_chat e chat_name s)
      | Clear \<Rightarrow> Some (clear_current_chat e s)
      | Import name uploaded \<Rightarrow> import_chat e name uploaded s
      | Send user_input \<Rightarrow> Some (snd (handle_user_input e user_input s)))"

fun run :: "(env \<times> op) list \<Rightarrow> session \<Rightarrow> session option" where
  "run [] s = Some s"
| "run ((e, operation) # rest) s =
     (case step e operation s of None \<Rightarrow> None | Some s' \<Rightarrow> run rest s')"

definition is_import :: "op \<Rightarrow> bool" where
  "is_import operation = (case operation of Import name uploaded \<Rightarrow> True | _ \<Rightarrow> False)"

text \<open>
  The uploads that keep a step within the model: those the code rejects, and the accepted lists
  all of whose elements are message records.
\<close>

definition within_model :: "op \<Rightarrow> bool" where
  "within_model operation =
     (case operation of
        Import name (Some chat_data) \<Rightarrow>
          (case import_check chat_data of
             Inl ex \<Rightarrow> True
           | Inr items \<Rightarrow> as_messages items \<noteq> None)
      | _ \<Rightarrow> True)"

text \<open>The keys under which \<open>import_chat\<close> stores: the names that start with \<open>Import: \<close>.\<close>

definition import_key :: "key \<Rightarrow> bool" where
  "import_key k = (case k of None \<Rightarrow> False | Some n \<Rightarrow> startswith ''Import: '' n)"

text \<open>A conversation led by a system message, and the first message of the conversation stored
  under a key.\<close>

definition led_by_system :: "message list \<Rightarrow> bool" where
  "led_by_system ms = (case ms of [] \<Rightarrow> False | m # _ \<Rightarrow> role m = ''system'')"

definition leading :: "store \<Rightarrow> key \<Rightarrow> message option" where
  "leading st k = (case map_of st k of Some (m # _) \<Rightarrow> Some m | _ \<Rightarrow> None)"

text \<open>
  The invariant, with a set \<open>X\<close> of exempt keys: every conversation stored under a key outside
  \<open>X\<close> starts with a system message; and when the current chat is outside \<open>X\<close>, the session's
  current list starts with a system message, which is also the first message of the
  conversation stored under the current chat.
\<close>

definition settled :: "(key \<Rightarrow> bool) \<Rightarrow> session \<Rightarrow> bool" where
  "settled X s =
     (list_all (\<lambda>(k, c). X k \<or> led_by_system c) (chats s)
      \<and> (X (current_chat s)
           \<or> led_by_system (messages s)
              \<and> leading (chats s) (current_chat s) = Some (hd (messages s))))"

text \<open>The invariant with no key exempt.\<close>

definition coherent :: "session \<Rightarrow> bool" where
  "coherent s =
     (list_all (\<lambda>(k, c). led_by_system c) (chats s)
      \<and> led_by_system (messages s)
      \<and> leading (chats s) (current_chat s) = Some (hd (messages s)))"

text \<open>\<open>keeps X s s'\<close>: every conversation that \<open>s\<close> stores under a key outside \<open>X\<close> is still stored
  in \<open>s'\<close>, with the same first message.\<close>

definition keeps :: "(key \<Rightarrow> bool) \<Rightarrow> session \<Rightarrow> session \<Rightarrow> bool" where
  "keeps X s s' = (\<forall>k m. \<not> X k \<and> leading (chats s) k = Some m \<longrightarrow> leading (chats s') k = Some m)"

lemma coherent_settled: "coherent s = settled (\<lambda>k. False) s"
  by (simp add: coherent_def settled_def)

lemma coherent_imp_settled: "coherent s \<Longrightarrow> settled X s"
  by (auto simp: coherent_def settled_def list_all_iff)

lemma keeps_refl: "keeps X s s"
  by (simp add: keeps_def)

lemma keeps_trans: "keeps X s s' \<Longrightarrow> keeps X s' s'' \<Longrightarrow> keeps X s s''"
  by (simp add: keeps_def)

lemma list_all_update:
  "list_all P al \<Longrightarrow> P (k, v) \<Longrightarrow> list_all P (AList.update k v al)"
  by (induction al) auto

lemma leading_update:
  "leading (AList.update k v al) k' = (if k' = k then (case v of [] \<Rightarrow> None | m # _ \<Rightarrow> Some m) else leading al k')"
  by (simp add: leading_def update_conv')

lemma leading_in_keys:
  "leading st k = Some m \<Longrightarrow> k \<in> set (map fst st)"
  by (force simp: leading_def split: option.splits dest: map_of_SomeD)

lemma led_by_system_trim:
  assumes "led_by_system ms"
  shows "led_by_system (trim_message_history ms)" and "hd (trim_message_history ms) = hd ms"
  using assms by (cases ms; simp add: led_by_system_def trim_message_history_def)+

lemma led_by_system_append:
  assumes "led_by_system ms"
  shows "led_by_system (ms @ xs)" and "hd (ms @ xs) = hd ms"
  using assms by (cases ms; simp add: led_by_system_def)+

lemma led_by_system_filter:
  assumes "led_by_system ms"
  shows "led_by_system (filter (\<lambda>m. role m = ''system'') ms)"
    and "hd (filter (\<lambda>m. role m = ''system'') ms) = hd ms"
    and "filter (\<lambda>m. role m = ''system'') ms \<noteq> []"
  using assms by (cases ms; simp add: led_by_system_def)+

lemma led_hd: "led_by_system ms \<Longrightarrow> ms = hd ms # tl ms"
  by (cases ms) (simp_all add: led_by_system_def)

text \<open>
  Replacing the conversation stored under the current chat by a list \<open>new\<close> that is led by a
  system message and starts as the current list does; \<open>new'\<close> becomes the current list.
\<close>

lemma settled_replace_current:
  assumes "settled X s"
    and "X (current_chat s) \<or> led_by_system new \<and> hd new = hd (messages s)"
    and "X (current_chat s) \<or> led_by_system new' \<and> hd new' = hd (messages s)"
    and "chats s' = AList.update (current_chat s) new (chats s)"
    and "messages s' = new'" and "current_chat s' = current_chat s"
  shows "settled X s'" and "keeps X s s'"
proof -
  have all: "list_all (\<lambda>(k, c). X k \<or> led_by_system c) (chats s)"
    using assms(1) by (simp add: settled_def)
  have l: "leading (chats s') k = leading (chats s) k" if "\<not> X k" for k
  proof (cases "k = current_chat s")
    case False
    then show ?thesis
      by (simp add: assms(4) leading_update)
  next
    case True
    with that assms(1,2) have led: "led_by_system new" and hd: "hd new = hd (messages s)"
      and cur: "leading (chats s) (current_chat s) = Some (hd (messages s))"
      by (auto simp: settled_def)
    obtain rest where "new = hd (messages s) # rest"
      using led_hd [OF led] hd by metis
    then show ?thesis
      using cur True by (simp add: assms(4) leading_update)
  qed
  show "keeps X s s'"
    by (simp add: keeps_def l)
  have "list_all (\<lambda>(k, c). X k \<or> led_by_system c) (chats s')"
    unfolding assms(4) using all assms(2) by (intro list_all_update) auto
  moreover have "X (current_chat s') \<or> led_by_system (messages s')
      \<and> leading (chats s') (current_chat s') = Some (hd (messages s'))"
  proof (cases "X (current_chat s)")
    case True
    then show ?thesis
      by (simp add: assms(6))
  next
    case False
    with assms(1,3) have "led_by_system new'" "hd new' = hd (messages s)"
      "leading (chats s) (current_chat s) = Some (hd (messages s))"
      by (auto simp: settled_def)
    with l [OF False] show ?thesis
      by (simp add: assms(5,6))
  qed
  ultimately show "settled X s'"
    by (simp add: settled_def)
qed

lemma settled_same:
  assumes "settled X s" and "chats s' = chats s" and "messages s' = messages s"
    and "current_chat s' = current_chat s"
  shows "settled X s'" and "keeps X s s'"
  using assms by (simp_all add: settled_def keeps_def)

lemma settled_append:
  assumes "settled X s"
  shows "settled X (s\<lparr>messages := messages s @ [u]\<rparr>)" and "keeps X s (s\<lparr>messages := messages s @ [u]\<rparr>)"
  using assms by (auto simp: settled_def keeps_def led_by_system_append)

lemma settled_store_trimmed:
  assumes "settled X s"
  shows "settled X (store_trimmed e s)" and "keeps X s (store_trimmed e s)"
proof -
  have "X (current_chat s) \<or> led_by_system (trim_message_history (messages s))
      \<and> hd (trim_message_history (messages s)) = hd (messages s)"
    using assms by (auto simp: settled_def led_by_system_trim)
  moreover have "X (current_chat s) \<or> led_by_system (messages s) \<and> hd (messages s) = hd (messages s)"
    using assms by (auto simp: settled_def)
  ultimately show "settled X (store_trimmed e s)" and "keeps X s (store_trimmed e s)"
    using settled_replace_current [OF assms, of "trim_message_history (messages s)" "messages s"
        "store_trimmed e s"]
    by simp_all
qed

lemma settled_create_new_chat:
  assumes "settled X s"
  shows "settled X (create_new_chat e chat_name s)" and "keeps X s (create_new_chat e chat_name s)"
proof -
  let ?k = "resolve_chat_name e chat_name s"
  show "settled X (create_new_chat e chat_name s)"
    using assms
    by (simp add: create_new_chat_def Let_def)
      (simp add: settled_def list_all_update leading_update led_by_system_def default_system_message_def)
  show "keeps X s (create_new_chat e chat_name s)"
  proof (cases "?k \<in> set (map fst (chats s))")
    case True
    then show ?thesis
      by (simp add: create_new_chat_def Let_def keeps_refl)
  next
    case False
    then have "leading (chats s) k = Some m \<Longrightarrow> k \<noteq> ?k" for k m
      using leading_in_keys by blast
    then show ?thesis
      using False by (simp add: create_new_chat_def Let_def keeps_def leading_update)
  qed
qed

lemma settled_clear_current_chat:
  assumes "settled X s"
  shows "settled X (clear_current_chat e s)" and "keeps X s (clear_current_chat e s)"
proof -
  let ?sys = "filter (\<lambda>m. role m = ''system'') (messages s)"
  let ?new = "if ?sys \<noteq> [] then ?sys else [default_system_message (language s)]"
  have "settled X (clear_current_chat e s) \<and> keeps X s (clear_current_chat e s)"
  proof (cases "messages s = []")
    case True
    with assms show ?thesis
      by (simp add: clear_current_chat_def keeps_refl)
  next
    case False
    have new: "X (current_chat s) \<or> led_by_system ?new \<and> hd ?new = hd (messages s)"
      using assms by (auto simp: settled_def led_by_system_filter)
    have "chats (clear_current_chat e s) = AList.update (current_chat s) ?new (chats s)"
      "messages (clear_current_chat e s) = ?new"
      "current_chat (clear_current_chat e s) = current_chat s"
      using False by (simp_all add: clear_current_chat_def Let_def)
    with settled_replace_current [OF assms new new] show ?thesis
      by blast
  qed
  then show "settled X (clear_current_chat e s)" and "keeps X s (clear_current_chat e s)"
    by simp_all
qed

lemma import_key_stored: "import_key (Some (''Import: '' @ name))"
  by (simp add: import_key_def)

lemma settled_import_chat:
  assumes "settled X s" and "import_chat e name uploaded s = Some s'"
    and "X (Some (''Import: '' @ name))"
  shows "settled X s'" and "keeps X s s'"
proof -
  let ?k = "Some (''Import: '' @ name)"
  have "(chats s' = chats s \<and> messages s' = messages s \<and> current_chat s' = current_chat s)
      \<or> (\<exists>msgs. chats s' = AList.update ?k msgs (chats s) \<and> current_chat s' = ?k)"
    using assms(2)
    by (auto simp: import_chat_def notify_def Let_def split: option.splits sum.splits)
  then have "settled X s' \<and> keeps X s s'"
  proof
    assume "chats s' = chats s \<and> messages s' = messages s \<and> current_chat s' = current_chat s"
    with settled_same [OF assms(1)] show ?thesis
      by blast
  next
    assume "\<exists>msgs. chats s' = AList.update ?k msgs (chats s) \<and> current_chat s' = ?k"
    then obtain msgs where c: "chats s' = AList.update ?k msgs (chats s)" and k: "current_chat s' = ?k"
      by blast
    have "list_all (\<lambda>(k, c). X k \<or> led_by_system c) (chats s)"
      using assms(1) by (simp add: settled_def)
    then have "list_all (\<lambda>(k, c). X k \<or> led_by_system c) (chats s')"
      unfolding c using assms(3) by (intro list_all_update) auto
    then have "settled X s'"
      using assms(3) by (simp add: settled_def k)
    moreover have "keeps X s s'"
      using assms(3) by (auto simp: keeps_def c leading_update)
    ultimately show ?thesis
      by blast
  qed
  then show "settled X s'" and "keeps X s s'"
    by simp_all
qed

lemma settled_flag [simp]:
  "settled X (s\<lparr>is_chat_input_disabled := b\<rparr>) = settled X s"
  "keeps X s0 (s\<lparr>is_chat_input_disabled := b\<rparr>) = keeps X s0 s"
  by (simp_all add: settled_def keeps_def)

lemma settled_append_store:
  assumes "settled X s" and "keeps X s0 s"
  shows "settled X (store_trimmed e (s\<lparr>messages := messages s @ [a]\<rparr>))"
    and "keeps X s0 (store_trimmed e (s\<lparr>messages := messages s @ [a]\<rparr>))"
proof -
  have c: "settled X (s\<lparr>messages := messages s @ [a]\<rparr>)" and k: "keeps X s (s\<lparr>messages := messages s @ [a]\<rparr>)"
    using settled_append [OF assms(1)] by simp_all
  show "settled X (store_trimmed e (s\<lparr>messages := messages s @ [a]\<rparr>))"
    using c by (rule settled_store_trimmed)
  have "keeps X (s\<lparr>messages := messages s @ [a]\<rparr>) (store_trimmed e (s\<lparr>messages := messages s @ [a]\<rparr>))"
    using c by (rule settled_store_trimmed)
  with assms(2) k show "keeps X s0 (store_trimmed e (s\<lparr>messages := messages s @ [a]\<rparr>))"
    by (meson keeps_trans)
qed

lemma settled_finish_send:
  assumes "settled X s" and "keeps X s0 s"
  shows "settled X (snd (finish_send e (response, s)))" and "keeps X s0 (snd (finish_send e (response, s)))"
proof -
  note cs = settled_append_store [OF assms]
  show "settled X (snd (finish_send e (response, s)))"
    using assms(1) cs(1) by (simp add: finish_send_def split: sum.splits option.splits)
  show "keeps X s0 (snd (finish_send e (response, s)))"
    using assms(2) cs(2) by (simp add: finish_send_def split: sum.splits option.splits)
qed

lemma settled_handle_user_input:
  assumes "settled X s"
  shows "settled X (snd (handle_user_input e user_input s))"
    and "keeps X s (snd (handle_user_input e user_input s))"
proof -
  have "settled X (snd (handle_user_input e user_input s)) \<and> keeps X s (snd (handle_user_input e user_input s))"
  proof (cases "validate_message user_input \<and> fst (rate_limit_check e s)")
    case False
    then have "snd (handle_user_input e user_input s) = s"
      by (simp add: handle_user_input_rejected)
    with assms show ?thesis
      by (simp add: keeps_refl)
  next
    case True
    define s2 where "s2 = s\<lparr>last_request_time := Some (clock e),
                    messages := messages s @ [\<lparr>role = ''user'', content = user_input\<rparr>],
                    is_chat_input_disabled := True\<rparr>"
    define s3 where "s3 = store_trimmed e s2"
    obtain response s4 where g: "get_model_response e (messages s3) s3 = (response, s4)"
      by (cases "get_model_response e (messages s3) s3")
    have c2: "settled X s2" "keeps X s s2"
      using settled_append [OF assms, of "\<lparr>role = ''user'', content = user_input\<rparr>"]
      by (simp_all add: s2_def settled_def keeps_def)
    have c3: "settled X s3" "keeps X s2 s3"
      unfolding s3_def using settled_store_trimmed [OF c2(1)] by simp_all
    have c4: "settled X s4" "keeps X s3 s4"
      using c3(1) get_model_response_fields(2,3,4) [OF g] by (simp_all add: settled_def keeps_def)
    have k4: "keeps X s s4"
      using c2(2) c3(2) c4(2) by (meson keeps_trans)
    have "handle_user_input e user_input s = finish_send e (response, s4)"
      using handle_user_input_accepted [of user_input e s] True g
      by (simp add: s2_def [symmetric] s3_def [symmetric] Let_def)
    with settled_finish_send [OF c4(1) k4] show ?thesis
      by simp
  qed
  then show "settled X (snd (handle_user_input e user_input s))"
    and "keeps X s (snd (handle_user_input e user_input s))"
    by simp_all
qed

lemma settled_step:
  assumes "settled X s" and "step e operation s = Some s'"
    and "\<And>name. is_import operation \<Longrightarrow> X (Some (''Import: '' @ name))"
  shows "settled X s'" and "keeps X s s'"
proof -
  have "settled X s' \<and> keeps X s s'"
  proof (cases operation)
    case (Create chat_name)
    with assms(2) settled_create_new_chat [OF assms(1)] show ?thesis
      by (auto simp: step_def)
  next
    case Clear
    with assms(2) settled_clear_current_chat [OF assms(1)] show ?thesis
      by (auto simp: step_def)
  next
    case (Import name uploaded)
    with assms(2) have "import_chat e name uploaded s = Some s'"
      by (simp add: step_def)
    moreover have "X (Some (''Import: '' @ name))"
      using assms(3) Import by (simp add: is_import_def)
    ultimately show ?thesis
      using settled_import_chat [OF assms(1)] by blast
  next
    case (Send user_input)
    with assms(2) settled_handle_user_input [OF assms(1)] show ?thesis
      by (auto simp: step_def)
  qed
  then show "settled X s'" and "keeps X s s'"
    by simp_all
qed

lemma settled_run:
  assumes "list_all (\<lambda>(e, operation). \<not> is_import operation) ops \<or> (\<forall>name. X (Some (''Import: '' @ name)))"
  shows "settled X s \<Longrightarrow> run ops s = Some s' \<Longrightarrow> settled X s' \<and> keeps X s s'"
  using assms
proof (induction ops arbitrary: s)
  case Nil
  then show ?case by (simp add: keeps_refl)
next
  case (Cons p ops)
  obtain e operation where p: "p = (e, operation)"
    by (cases p)
  from Cons.prems(2) obtain s1 where s1: "step e operation s = Some s1" and r: "run ops s1 = Some s'"
    by (auto simp: p split: option.splits)
  have i: "is_import operation \<Longrightarrow> X (Some (''Import: '' @ name))" for name
    using Cons.prems(3) by (auto simp: p)
  have "settled X s1" "keeps X s s1"
    using settled_step [OF Cons.prems(1) s1 i] by blast+
  moreover have "list_all (\<lambda>(e, operation). \<not> is_import operation) ops \<or> (\<forall>name. X (Some (''Import: '' @ name)))"
    using Cons.prems(3) by auto
  ultimately show ?case
    using Cons.IH [OF _ r] keeps_trans by blast
qed

text \<open>A run returns a session when every import of it is within the model.\<close>

lemma run_returns:
  "list_all (\<lambda>(e, operation). within_model operation) ops \<Longrightarrow> \<exists>s'. run ops s = Some s'"
proof (induction ops arbitrary: s)
  case Nil
  show ?case by simp
next
  case (Cons p ops)
  obtain e operation where p: "p = (e, operation)"
    by (cases p)
  from Cons.prems have w: "within_model operation"
    by (simp add: p)
  have "\<exists>s1. step e operation s = Some s1"
  proof (cases operation)
    case (Import name uploaded)
    with w show ?thesis
      by (auto simp: step_def within_model_def import_chat_def Let_def
          split: option.splits sum.splits)
  qed (simp_all add: step_def)
  then obtain s1 where "step e operation s = Some s1"
    by blast
  with Cons.IH [of s1] Cons.prems show ?case
    by (simp add: p)
qed

lemma settled_led:
  assumes "settled X s" and "\<not> X k" and "leading (chats s) k = Some m"
  shows "role m = ''system''"
proof -
  from assms(3) obtain c where c: "map_of (chats s) k = Some (m # c)"
    by (auto simp: leading_def split: option.splits list.splits)
  then have "(k, m # c) \<in> set (chats s)"
    by (rule map_of_SomeD)
  moreover have "list_all (\<lambda>(k, c). X k \<or> led_by_system c) (chats s)"
    using assms(1) by (simp add: settled_def)
  ultimately show ?thesis
    using assms(2) by (auto simp: list_all_iff led_by_system_def)
qed

lemma settled_has_system:
  assumes "settled X s"
  shows "list_all (\<lambda>(k, c). X k \<or> filter (\<lambda>m. role m = ''system'') c \<noteq> []) (chats s)"
proof -
  have "list_all (\<lambda>(k, c). X k \<or> led_by_system c) (chats s)"
    using assms by (simp add: settled_def)
  then show ?thesis
    by (rule list.pred_mono_strong) (auto dest: led_by_system_filter(3))
qed

text \<open>A well-formed completion, and two sequences of operations from the initial session, one
  with an import and one without.\<close>

definition hello_body :: json where
  "hello_body = JObj [(''choices'', JArr [JObj [(''text'', JStr '' Hello! '')]])]"

definition example_ops :: "(env \<times> op) list" where
  "example_ops =
     [(env_at 0 (Response 200 (Some hello_body)), Send ''hi''),
      (env_at 2 Timeout, Import ''x.json''
         (Some (JArr [JObj [(''role'', JStr ''user''), (''content'', JStr ''hi'')]]))),
      (env_at 3 Timeout, Send ''again''),
      (env_at 5 Timeout, Clear),
      (env_at 6 Timeout, Create (Some ''My Chat!''))]"

definition plain_ops :: "(env \<times> op) list" where
  "plain_ops =
     [(env_at 0 (Response 200 (Some hello_body)), Send ''hi''),
      (env_at 2 Timeout, Create (Some ''My Chat!'')),
      (env_at 3 Timeout, Send ''again''),
      (env_at 5 Timeout, Clear)]"

text \<open>
  C5, as the code has it. Take a session in which every conversation stored under a name that
  does not start with \<open>Import: \<close> starts with a system message and in which, unless the current
  chat is such an imported one, the current list starts with a system message that is also the
  first message of the conversation stored under the current chat. After any sequence of create,
  clear, import and send operations the session is of this kind again; every conversation that
  was stored under a name not starting with \<open>Import: \<close> is still stored and still starts with the
  same system message; and every conversation now stored under such a name holds a system
  message. Only the conversations stored by import are exempt. For a sequence with no import,
  from a session where all this holds of every conversation, it holds of every conversation
  afterwards.
\<close>

theorem system_message_kept:
  assumes "settled import_key s" and "run ops s = Some s'"
  shows "settled import_key s'
     \<and> (\<forall>k m. \<not> import_key k \<and> leading (chats s) k = Some m \<longrightarrow>
           role m = ''system'' \<and> leading (chats s') k = Some m)
     \<and> list_all (\<lambda>(k, c). import_key k \<or> filter (\<lambda>m. role m = ''system'') c \<noteq> []) (chats s')
     \<and> (coherent s \<and> list_all (\<lambda>(e, operation). \<not> is_import operation) ops \<longrightarrow>
          coherent s' \<and> (\<forall>k m. leading (chats s) k = Some m \<longrightarrow> leading (chats s') k = Some m))"
proof -
  have "list_all (\<lambda>(e, operation). \<not> is_import operation) ops
      \<or> (\<forall>name. import_key (Some (''Import: '' @ name)))"
    using import_key_stored by blast
  from settled_run [OF this assms] have c: "settled import_key s'" and k: "keeps import_key s s'"
    by simp_all
  have a: "role m = ''system'' \<and> leading (chats s') k = Some m"
    if "\<not> import_key k" and "leading (chats s) k = Some m" for k m
    using settled_led [OF assms(1) that] k that by (simp add: keeps_def)
  have b: "coherent s' \<and> (\<forall>k m. leading (chats s) k = Some m \<longrightarrow> leading (chats s') k = Some m)"
    if "coherent s" and "list_all (\<lambda>(e, operation). \<not> is_import operation) ops"
  proof -
    have "list_all (\<lambda>(e, operation). \<not> is_import operation) ops \<or> (\<forall>name. False)"
      using that(2) by simp
    from settled_run [OF this _ assms(2)] that(1) show ?thesis
      by (simp add: coherent_settled keeps_def)
  qed
  from c a settled_has_system [OF c] b show ?thesis
    by blast
qed

theorem system_message_kept_witness:
  "settled import_key initial_session \<and> \<not> import_key (Some ''Default'')
   \<and> leading (chats initial_session) (Some ''Default'') = Some (default_system_message En)
   \<and> (\<exists>s'. run example_ops initial_session = Some s'
          \<and> leading (chats s') (Some ''Default'') = Some (default_system_message En)
          \<and> settled import_key s')
   \<and> coherent initial_session \<and> list_all (\<lambda>(e, operation). \<not> is_import operation) plain_ops
   \<and> (\<exists>s'. run plain_ops initial_session = Some s' \<and> coherent s')"
proof -
  have c: "coherent initial_session"
    by (simp add: coherent_def initial_session_def leading_def led_by_system_def default_system_message_def)
  then have i: "settled import_key initial_session"
    by (rule coherent_imp_settled)
  have d: "\<not> import_key (Some ''Default'')"
    by (simp add: import_key_def)
  have l: "leading (chats initial_session) (Some ''Default'') = Some (default_system_message En)"
    by (simp add: initial_session_def leading_def)
  have "list_all (\<lambda>(e, operation). within_model operation) example_ops"
    by (simp add: example_ops_def within_model_def import_check_def as_message_def)
  then obtain s1 where s1: "run example_ops initial_session = Some s1"
    using run_returns by blast
  have p: "list_all (\<lambda>(e, operation). \<not> is_import operation) plain_ops"
    by (simp add: plain_ops_def is_import_def)
  have "list_all (\<lambda>(e, operation). within_model operation) plain_ops"
    by (simp add: plain_ops_def within_model_def)
  then obtain s2 where s2: "run plain_ops initial_session = Some s2"
    using run_returns by blast
  from system_message_kept [OF i s1] d l
  have "leading (chats s1) (Some ''Default'') = Some (default_system_message En)" "settled import_key s1"
    by blast+
  moreover from system_message_kept [OF i s2] c p have "coherent s2"
    by blast
  ultimately show ?thesis
    using i d l c p s1 s2 by blast
qed

text \<open>
  C5, as stated, fails for import: the uploaded list \<open>[{"role": "user", "content": "hi"}]\<close>
  passes the check of \<open>import_chat\<close> and is stored as it is, a conversation with no system
  message.
\<close>

theorem import_chat_counterexample:
  "map_option chats
     (import_chat (env_at 0 Timeout) ''x.json''
        (Some (JArr [JObj [(''role'', JStr ''user''), (''content'', JStr ''hi'')]])) initial_session)
     = Some [(Some ''Default'', [default_system_message En]),
             (Some ''Import: x.json'', [\<lparr>role = ''user'', content = ''hi''\<rparr>])]
   \<and> ''system'' \<notin> set (map role [\<lparr>role = ''user'', content = ''hi''\<rparr>])"
  by (simp add: import_chat_def import_check_def as_message_def save_chats_def env_at_def
      initial_session_def Let_def)

section \<open>Creating a chat\<close>

lemma str_nat_two: "str_nat (Suc (Suc 0)) = ''2''"
  by (subst str_nat.simps) (simp add: digits_def)

text \<open>
  C4 at \<open>create_new_chat()\<close>, the call the New Chat button makes: with no name given the
  sanitising block is skipped, so no name is generated; the chat is stored under the key \<open>None\<close>
  and \<open>None\<close> becomes the current chat. The generated name would have been \<open>Chat 2 (...)\<close>.
\<close>

theorem create_new_chat_without_name:
  "create_new_chat (env_at 0 Timeout) None initial_session
     = initial_session
         \<lparr>current_chat := None,
          chats := [(Some ''Default'', [default_system_message En]), (None, [default_system_message En])],
          disk := Some [(Some ''Default'', [default_system_message En]), (None, [default_system_message En])]\<rparr>
   \<and> generate_chat_name (env_at 0 Timeout) initial_session = ''Chat 2 (01.01.2025 12:00)''
   \<and> Some (generate_chat_name (env_at 0 Timeout) initial_session)
        \<notin> set (map fst (chats (create_new_chat (env_at 0 Timeout) None initial_session)))"
  by (simp add: create_new_chat_def resolve_chat_name_def generate_chat_name_def save_chats_def
      env_at_def initial_session_def str_nat_two Let_def)

lemma sanitize_example: "sanitize ''My Chat!'' = ''My Chat''"
  by (simp add: sanitize_def strip_def isspace_def isalnum_def char_tables)

text \<open>
  With a non-empty name given, the chat is created under the sanitised name, or under the
  generated name when nothing is left of it; nothing happens when that name is taken.
\<close>

lemma create_new_chat_named:
  assumes "n \<noteq> []"
    and "name = (if sanitize n = [] then generate_chat_name e s else sanitize n)"
  shows "Some name \<in> set (map fst (chats s)) \<Longrightarrow> create_new_chat e (Some n) s = s"
    and "Some name \<notin> set (map fst (chats s)) \<Longrightarrow>
           create_new_chat e (Some n) s
             = save_chats e
                 (s\<lparr>chats := AList.update (Some name) [default_system_message (language s)] (chats s),
                    current_chat := Some name,
                    messages := [default_system_message (language s)]\<rparr>)"
  using assms by (auto simp: create_new_chat_def resolve_chat_name_def Let_def split: if_splits)

lemma create_new_chat_example:
  "chats (create_new_chat (env_at 0 Timeout) (Some ''My Chat!'') initial_session)
     = [(Some ''Default'', [default_system_message En]), (Some ''My Chat'', [default_system_message En])]"
  by (simp add: create_new_chat_def resolve_chat_name_def sanitize_example save_chats_def
      env_at_def initial_session_def Let_def)

section \<open>Failed and empty completions\<close>

text \<open>
  The outcomes of the POST for which \<open>get_model_response\<close> returns \<open>None\<close>: a timeout, another
  request exception, a status for which \<open>raise_for_status\<close> raises, a body that is not JSON.
\<close>

definition failed_outcome :: "http_outcome \<Rightarrow> bool" where
  "failed_outcome h =
     (case h of
        Timeout \<Rightarrow> True
      | RequestException \<Rightarrow> True
      | Response status body \<Rightarrow> raise_for_status status \<or> body = None)"

text \<open>
  The completion text of a document of the expected shape
  \<open>{"choices": [{"text": t, ...}, ...], ...}\<close> with a string \<open>t\<close>; \<open>None\<close> for a document of any
  other shape.
\<close>

fun choice_text :: "json \<Rightarrow> string option" where
  "choice_text (JObj c) = (case map_of c ''text'' of Some (JStr t) \<Rightarrow> Some t | _ \<Rightarrow> None)"
| "choice_text _ = None"

fun choices_text :: "json \<Rightarrow> string option" where
  "choices_text (JArr (first # rest)) = choice_text first"
| "choices_text _ = None"

fun completion_text :: "json \<Rightarrow> string option" where
  "completion_text (JObj kvs) =
     (case map_of kvs ''choices'' of Some choices \<Rightarrow> choices_text choices | None \<Rightarrow> None)"
| "completion_text _ = None"

text \<open>A document of the expected shape whose text is empty or all white space.\<close>

definition blank_text :: "json \<Rightarrow> bool" where
  "blank_text doc = (case completion_text doc of Some t \<Rightarrow> list_all isspace t | None \<Rightarrow> False)"

definition unexpected_shape :: "json \<Rightarrow> bool" where
  "unexpected_shape doc = (completion_text doc = None)"

text \<open>
  A response that passes \<open>raise_for_status\<close> with a JSON body from which no text is to be had:
  a body of another shape than expected, or one with a blank text.
\<close>

definition blank_completion :: "http_outcome \<Rightarrow> bool" where
  "blank_completion h =
     (case h of
        Response status (Some doc) \<Rightarrow> \<not> raise_for_status status \<and> blank_text doc
      | _ \<Rightarrow> False)"

definition misshapen_completion :: "http_outcome \<Rightarrow> bool" where
  "misshapen_completion h =
     (case h of
        Response status (Some doc) \<Rightarrow> \<not> raise_for_status status \<and> unexpected_shape doc
      | _ \<Rightarrow> False)"

lemma get_model_response_failed:
  "failed_outcome (http e) \<Longrightarrow> fst (get_model_response e msgs s) = JNull"
  by (auto simp: failed_outcome_def get_model_response_def Let_def split: http_outcome.splits)

lemma response_text_JNull: "response_text JNull = Inr None"
  by (simp add: response_text_def)

lemma getitem_str_Inr:
  assumes "getitem_str x k = Inr v"
  shows "\<exists>kvs. x = JObj kvs \<and> map_of kvs k = Some v"
  using assms by (cases x) (auto split: option.splits)

lemma getitem_0_Inr:
  assumes "getitem_0 x = Inr first"
  shows "(\<exists>rest. x = JArr (first # rest)) \<or> (\<exists>c cs. x = JStr (c # cs) \<and> first = JStr [c])"
  using assms by (cases x rule: getitem_0.cases) auto

lemma py_strip_Inr:
  assumes "py_strip x = Inr t"
  shows "\<exists>s. x = JStr s \<and> t = strip s"
  using assms by (cases x) auto

text \<open>The code obtains a text exactly from the documents of the expected shape, and the text
  it obtains is the stripped completion text.\<close>

lemma response_text_shape:
  assumes "response_text doc = Inr (Some t')"
  shows "\<exists>t. completion_text doc = Some t \<and> t' = strip t"
proof -
  from assms obtain choices first tval where c: "getitem_str doc ''choices'' = Inr choices"
    and f: "getitem_0 choices = Inr first" and x: "getitem_str first ''text'' = Inr tval"
    and s: "py_strip tval = Inr t'"
    by (auto simp: response_text_def split: if_splits sum.splits bool.splits)
  from getitem_str_Inr [OF c] obtain kvs where doc: "doc = JObj kvs"
    and ch: "map_of kvs ''choices'' = Some choices"
    by blast
  from getitem_str_Inr [OF x] obtain tv where first: "first = JObj tv"
    and tx: "map_of tv ''text'' = Some tval"
    by blast
  from getitem_0_Inr [OF f] first obtain rest where choices: "choices = JArr (first # rest)"
    by auto
  from py_strip_Inr [OF s] obtain t where tval: "tval = JStr t" and t': "t' = strip t"
    by blast
  have "completion_text doc = Some t"
    by (simp add: doc ch choices first tx tval)
  with t' show ?thesis
    by blast
qed

lemma response_text_of_shape:
  assumes "completion_text doc = Some t"
  shows "response_text doc = Inr (Some (strip t))"
proof -
  from assms obtain kvs choices where doc: "doc = JObj kvs"
    and ch: "map_of kvs ''choices'' = Some choices" and ct: "choices_text choices = Some t"
    by (cases doc rule: completion_text.cases) (auto split: option.splits)
  from ct obtain first rest where choices: "choices = JArr (first # rest)"
    and ft: "choice_text first = Some t"
    by (cases choices rule: choices_text.cases) auto
  from ft obtain tv where first: "first = JObj tv" and tx: "map_of tv ''text'' = Some (JStr t)"
    by (cases first rule: choice_text.cases) (auto split: option.splits json.splits)
  from ch have "(''choices'', choices) \<in> set kvs"
    by (rule map_of_SomeD)
  then have "kvs \<noteq> []" and "''choices'' \<in> set (map fst kvs)"
    by force+
  then show ?thesis
    by (simp add: response_text_def doc ch choices first tx)
qed

lemma response_text_blank:
  assumes "blank_text doc"
  shows "response_text doc = Inr (Some [])"
proof -
  from assms obtain t where t: "completion_text doc = Some t" and b: "list_all isspace t"
    by (auto simp: blank_text_def split: option.splits)
  from b have "strip t = []"
    by (simp add: strip_empty_iff list_all_iff)
  with response_text_of_shape [OF t] show ?thesis
    by simp
qed

lemma response_text_misshapen:
  assumes "unexpected_shape doc"
  shows "response_text doc \<noteq> Inr (Some t')"
  using assms response_text_shape [of doc t'] by (auto simp: unexpected_shape_def)

text \<open>When the code obtains no text or an empty one, nothing is appended and nothing more is
  stored.\<close>

lemma finish_send_no_text:
  assumes "response_text response = Inr None \<or> response_text response = Inr (Some [])"
  shows "finish_send e (response, s) = (None, s\<lparr>is_chat_input_disabled := False\<rparr>)"
  using assms by (auto simp: finish_send_def)

lemma finish_send_no_append:
  assumes "\<And>t. response_text response = Inr (Some t) \<Longrightarrow> t = []"
  shows "messages (snd (finish_send e (response, s))) = messages s"
    and "chats (snd (finish_send e (response, s))) = chats s"
    and "disk (snd (finish_send e (response, s))) = disk s"
    and "current_chat (snd (finish_send e (response, s))) = current_chat s"
  using assms by (auto simp: finish_send_def split: sum.splits option.splits)

lemma last_slice_from_neg:
  "0 < k \<Longrightarrow> last (slice_from_neg k (xs @ [u])) = u"
  by (simp add: slice_from_neg_def last_drop)

lemma last_trim_user:
  "role u \<noteq> ''system'' \<Longrightarrow> last (trim_message_history (ms @ [u])) = u"
  by (simp add: trim_message_history_def last_slice_from_neg MAX_HISTORY_LENGTH_def slice_from_neg_def)

text \<open>
  C6, as the code has it. When the POST times out, fails, answers with a status from 400 to 599
  or with a body that is not JSON, \<open>get_model_response\<close> returns \<open>None\<close>. For an accepted message,
  in those cases and also when the body is JSON of another shape than expected or its text is
  empty or all white space, \<open>handle_user_input\<close> appends no assistant message: the current list
  is the old one with the user message appended, the stored conversation is the trimmed form
  of that list, which ends with the user message, and that store is written to the chats file
  when the file can be written. Except for a body of another shape, \<open>handle_user_input\<close> then
  returns with no exception and with the input enabled again.
\<close>

theorem failed_completion_keeps_user_message:
  assumes "validate_message user_input" and "fst (rate_limit_check e s)"
    and "failed_outcome (http e) \<or> blank_completion (http e) \<or> misshapen_completion (http e)"
  shows "messages (snd (handle_user_input e user_input s))
         = messages s @ [\<lparr>role = ''user'', content = user_input\<rparr>]
     \<and> chats (snd (handle_user_input e user_input s))
         = AList.update (current_chat s)
             (trim_message_history (messages s @ [\<lparr>role = ''user'', content = user_input\<rparr>])) (chats s)
     \<and> last (trim_message_history (messages s @ [\<lparr>role = ''user'', content = user_input\<rparr>]))
         = \<lparr>role = ''user'', content = user_input\<rparr>
     \<and> (file_writable e \<longrightarrow>
          disk (snd (handle_user_input e user_input s)) = Some (chats (snd (handle_user_input e user_input s))))
     \<and> current_chat (snd (handle_user_input e user_input s)) = current_chat s
     \<and> (failed_outcome (http e) \<or> blank_completion (http e) \<longrightarrow>
          fst (handle_user_input e user_input s) = None
          \<and> \<not> is_chat_input_disabled (snd (handle_user_input e user_input s)))
     \<and> (failed_outcome (http e) \<longrightarrow> fst (get_model_response e msgs s0) = JNull)"
proof -
  define u where "u = \<lparr>role = ''user'', content = user_input\<rparr>"
  define s2 where "s2 = s\<lparr>last_request_time := Some (clock e), messages := messages s @ [u],
      is_chat_input_disabled := True\<rparr>"
  define s3 where "s3 = store_trimmed e s2"
  obtain response s4 where g: "get_model_response e (messages s3) s3 = (response, s4)"
    by (cases "get_model_response e (messages s3) s3")
  have h: "handle_user_input e user_input s = finish_send e (response, s4)"
    using handle_user_input_accepted [OF assms(1,2)] g
    by (simp add: u_def [symmetric] s2_def [symmetric] s3_def [symmetric] Let_def)
  have r: "response = JNull \<or> (\<exists>status. http e = Response status (Some response) \<and> \<not> raise_for_status status)"
    using g by (auto simp: get_model_response_def Let_def split: if_splits http_outcome.splits option.splits)
  have none: "t = []" if "response_text response = Inr (Some t)" for t
  proof -
    from that r obtain status where o: "http e = Response status (Some response)"
      and ok: "\<not> raise_for_status status"
      by (auto simp: response_text_JNull)
    with assms(3) have "blank_text response \<or> unexpected_shape response"
      by (simp add: failed_outcome_def blank_completion_def misshapen_completion_def)
    with that response_text_blank [of response] response_text_misshapen [of response t] show ?thesis
      by auto
  qed
  have ok: "response_text response = Inr None \<or> response_text response = Inr (Some [])"
    if "failed_outcome (http e) \<or> blank_completion (http e)"
  proof (cases "response = JNull")
    case True
    then show ?thesis
      by (simp add: response_text_JNull)
  next
    case False
    with r obtain status where o: "http e = Response status (Some response)"
      and st: "\<not> raise_for_status status"
      by blast
    with that have "blank_text response"
      by (simp add: failed_outcome_def blank_completion_def)
    then show ?thesis
      by (simp add: response_text_blank)
  qed
  note fields = get_model_response_fields [OF g]
  note kept = finish_send_no_append [of response, OF none]
  have m: "messages (snd (handle_user_input e user_input s)) = messages s @ [u]"
    by (simp add: h kept fields s3_def s2_def)
  have c: "chats (snd (handle_user_input e user_input s))
      = AList.update (current_chat s) (trim_message_history (messages s @ [u])) (chats s)"
    by (simp add: h kept fields s3_def s2_def)
  have d: "file_writable e \<Longrightarrow>
      disk (snd (handle_user_input e user_input s)) = Some (chats (snd (handle_user_input e user_input s)))"
    by (simp add: h kept fields s3_def store_trimmed_def save_chats_def)
  have cur: "current_chat (snd (handle_user_input e user_input s)) = current_chat s"
    by (simp add: h kept fields s3_def s2_def)
  have l: "last (trim_message_history (messages s @ [u])) = u"
    by (rule last_trim_user) (simp add: u_def)
  have f: "fst (handle_user_input e user_input s) = None
      \<and> \<not> is_chat_input_disabled (snd (handle_user_input e user_input s))"
    if "failed_outcome (http e) \<or> blank_completion (http e)"
    using finish_send_no_text [OF ok [OF that], of e s4] by (simp add: h)
  have n: "failed_outcome (http e) \<Longrightarrow> fst (get_model_response e msgs s0) = JNull"
    by (rule get_model_response_failed)
  from m c d cur l f n show ?thesis
    unfolding u_def [symmetric] by blast
qed

text \<open>A completion whose text is two spaces and a no-break space, and a session whose current
  conversation has the system message and twenty others.\<close>

definition blank_body :: json where
  "blank_body = JObj [(''choices'', JArr [JObj [(''text'', JStr [CHR 0x20, CHR 0x20, CHR 0xA0])]])]"

definition full_session :: session where
  "full_session =
     initial_session
       \<lparr>messages := default_system_message En # replicate 20 \<lparr>role = ''user'', content = ''old''\<rparr>,
        chats := [(Some ''Default'',
                   default_system_message En # replicate 20 \<lparr>role = ''user'', content = ''old''\<rparr>)]\<rparr>"

theorem failed_completion_keeps_user_message_witness:
  "validate_message ''hi'' \<and> fst (rate_limit_check (env_at 0 (Response 504 None)) initial_session)
   \<and> (failed_outcome (http (env_at 0 (Response 504 None)))
        \<or> blank_completion (http (env_at 0 (Response 504 None)))
        \<or> misshapen_completion (http (env_at 0 (Response 504 None))))
   \<and> fst (handle_user_input (env_at 0 (Response 504 None)) ''hi'' initial_session) = None
   \<and> messages (snd (handle_user_input (env_at 0 (Response 504 None)) ''hi'' initial_session))
       = [default_system_message En, \<lparr>role = ''user'', content = ''hi''\<rparr>]
   \<and> disk (snd (handle_user_input (env_at 0 (Response 504 None)) ''hi'' initial_session))
       = Some [(Some ''Default'', [default_system_message En, \<lparr>role = ''user'', content = ''hi''\<rparr>])]
   \<and> (failed_outcome (http (env_at 1 (Response 200 (Some blank_body))))
        \<or> blank_completion (http (env_at 1 (Response 200 (Some blank_body))))
        \<or> misshapen_completion (http (env_at 1 (Response 200 (Some blank_body)))))
   \<and> fst (handle_user_input (env_at 1 (Response 200 (Some blank_body))) ''hi'' initial_session) = None
   \<and> messages (snd (handle_user_input (env_at 1 (Response 200 (Some blank_body))) ''hi'' initial_session))
       = [default_system_message En, \<lparr>role = ''user'', content = ''hi''\<rparr>]
   \<and> (failed_outcome (http (env_at 2 (Response 200 (Some (JObj [(''choices'', JArr [JObj []])])))))
        \<or> blank_completion (http (env_at 2 (Response 200 (Some (JObj [(''choices'', JArr [JObj []])])))))
        \<or> misshapen_completion (http (env_at 2 (Response 200 (Some (JObj [(''choices'', JArr [JObj []])]))))))
   \<and> messages (snd (handle_user_input (env_at 2 (Response 200 (Some (JObj [(''choices'', JArr [JObj []])]))))
                        ''hi'' initial_session))
       = [default_system_message En, \<lparr>role = ''user'', content = ''hi''\<rparr>]"
proof -
  have v: "validate_message ''hi''"
    by (simp add: validate_message_def strip_def isspace_def whitespace_def)
  have r: "fst (rate_limit_check (env_at t h) initial_session)" for t h
    by (simp add: rate_limit_check_def initial_session_def)
  have f: "failed_outcome (http (env_at 0 (Response 504 None)))"
    by (simp add: failed_outcome_def env_at_def raise_for_status_def)
  have b: "blank_completion (http (env_at 1 (Response 200 (Some blank_body))))"
    by (simp add: blank_completion_def blank_text_def blank_body_def env_at_def raise_for_status_def
        isspace_def whitespace_def)
  have m: "misshapen_completion (http (env_at 2 (Response 200 (Some (JObj [(''choices'', JArr [JObj []])])))))"
    by (simp add: misshapen_completion_def unexpected_shape_def env_at_def raise_for_status_def)
  have t: "trim_message_history [default_system_message En, \<lparr>role = ''user'', content = ''hi''\<rparr>]
      = [default_system_message En, \<lparr>role = ''user'', content = ''hi''\<rparr>]"
    by (simp add: trim_message_history_def slice_from_neg_def default_system_message_def
        MAX_HISTORY_LENGTH_def)
  have w: "file_writable (env_at t h)" for t h
    by (simp add: env_at_def)
  have i: "messages initial_session = [default_system_message En]"
    "chats initial_session = [(Some ''Default'', [default_system_message En])]"
    "current_chat initial_session = Some ''Default''"
    by (simp_all add: initial_session_def)
  from failed_completion_keeps_user_message [where e = "env_at 0 (Response 504 None)", OF v r]
    failed_completion_keeps_user_message [where e = "env_at 1 (Response 200 (Some blank_body))", OF v r]
    failed_completion_keeps_user_message
      [where e = "env_at 2 (Response 200 (Some (JObj [(''choices'', JArr [JObj []])])))", OF v r]
    v r f b m w show ?thesis
    by (simp add: i t)
qed

text \<open>
  C6, as stated, fails twice. A status that is neither 2xx nor an error code: with status 300
  and a well-formed body \<open>raise_for_status\<close> does not raise, \<open>get_model_response\<close> returns the
  document, and the assistant message is appended. And a failed send does change the stored
  conversation beyond the appended user message when the history is full: stored are the
  system message and the last twenty others, so the oldest of them is gone.
\<close>

theorem completion_counterexample:
  "fst (get_model_response (env_at 0 (Response 300 (Some hello_body)))
          [default_system_message En, \<lparr>role = ''user'', content = ''hi''\<rparr>] initial_session) = hello_body
   \<and> messages (snd (handle_user_input (env_at 0 (Response 300 (Some hello_body))) ''hi'' initial_session))
       = [default_system_message En, \<lparr>role = ''user'', content = ''hi''\<rparr>,
          \<lparr>role = ''assistant'', content = ''Hello!''\<rparr>]
   \<and> map_of (chats full_session) (Some ''Default'')
       = Some (default_system_message En # replicate 20 \<lparr>role = ''user'', content = ''old''\<rparr>)
   \<and> map_of (chats (snd (handle_user_input (env_at 0 Timeout) ''hi'' full_session))) (Some ''Default'')
       = Some (default_system_message En # replicate 19 \<lparr>role = ''user'', content = ''old''\<rparr>
               @ [\<lparr>role = ''user'', content = ''hi''\<rparr>])"
proof -
  have a: "fst (get_model_response (env_at 0 (Response 300 (Some hello_body)))
          [default_system_message En, \<lparr>role = ''user'', content = ''hi''\<rparr>] initial_session) = hello_body"
    by (simp add: eval_defs hello_body_def)
  have b: "messages (snd (handle_user_input (env_at 0 (Response 300 (Some hello_body))) ''hi'' initial_session))
       = [default_system_message En, \<lparr>role = ''user'', content = ''hi''\<rparr>,
          \<lparr>role = ''assistant'', content = ''Hello!''\<rparr>]"
    by (simp add: eval_defs hello_body_def)
  have c: "map_of (chats full_session) (Some ''Default'')
       = Some (default_system_message En # replicate 20 \<lparr>role = ''user'', content = ''old''\<rparr>)"
    by (simp add: full_session_def initial_session_def)
  have d: "map_of (chats (snd (handle_user_input (env_at 0 Timeout) ''hi'' full_session))) (Some ''Default'')
       = Some (default_system_message En # replicate 19 \<lparr>role = ''user'', content = ''old''\<rparr>
               @ [\<lparr>role = ''user'', content = ''hi''\<rparr>])"
    by (simp add: eval_defs full_session_def)
  from a b c d show ?thesis
    by blast
qed

text \<open>
  A body of another shape is returned by \<open>get_model_response\<close> as it is; with a first choice
  that has no \<open>text\<close>, line 247 raises \<open>KeyError\<close> out of \<open>handle_user_input\<close>, and the input
  stays disabled.
\<close>

lemma missing_text_raises:
  "fst (handle_user_input (env_at 0 (Response 200 (Some (JObj [(''choices'', JArr [JObj []])])))) ''hi''
          initial_session) = Some KeyError
   \<and> is_chat_input_disabled
        (snd (handle_user_input (env_at 0 (Response 200 (Some (JObj [(''choices'', JArr [JObj []])])))) ''hi''
                initial_session))"
  by (simp add: eval_defs)

end
